theory Spec2Isabelle
  imports Complex_Main "HOL-Library.Char_ord" "HOL-Library.List_Lexorder" "HOL-Library.Multiset"
    "HOL-Library.Product_Lexorder"
begin

section \<open>Diet recommendation backend: a shallow embedding of \<^verbatim>\<open>backend/app.py\<close>\<close>

text \<open>
  The theory follows the Python module top-down: the module constants, the cluster
  policy look-ups at the head of \<^verbatim>\<open>get_cluster_recommendations\<close>, the request
  validator \<^verbatim>\<open>validate_request\<close>, the catalog cleaning of
  \<^verbatim>\<open>load_models_and_data\<close> and the recommendation engine itself.
  Python exceptions are values of \<open>pyerror\<close>; a function that can raise returns a
  sum with the exception on the left.
\<close>

datatype pyerror = KeyError | TypeError | ValueError | AttributeError | OverflowError

subsection \<open>Formatting an integer, as an f-string does\<close>

text \<open>
  \<^verbatim>\<open>f"Cluster {user_cluster}"\<close> prints the decimal digits of the integer, with a
  leading minus sign for a negative one.
\<close>

definition digit_char :: "nat \<Rightarrow> char" where
  "digit_char d = ''0123456789'' ! d"

function str_nat :: "nat \<Rightarrow> string" where
  "str_nat n = (if n < 10 then [digit_char n] else str_nat (n div 10) @ [digit_char (n mod 10)])"
  by pat_completeness auto
termination
  by (relation "measure id") auto

definition str_int :: "int \<Rightarrow> string" where
  "str_int i = (if i < 0 then CHR ''-'' # str_nat (nat (- i)) else str_nat (nat i))"

subsection \<open>Cluster policy tables\<close>

definition CLUSTER_PROFILE :: "(int \<times> string) list" where
  "CLUSTER_PROFILE =
    [(0, ''Prediabetic, Active Profile''),
     (1, ''Older, Active Diabetic Profile''),
     (2, ''Active Diabetic with High Blood Pressure''),
     (3, ''Low-Activity Diabetic with Very High Blood Sugar''),
     (4, ''Active Walker with High Blood Pressure''),
     (5, ''High BMI (Obese) with Diabetes'')]"

definition CLUSTER_RECOMMENDATION_TYPE :: "(int \<times> string) list" where
  "CLUSTER_RECOMMENDATION_TYPE =
    [(0, ''Low-Carb Foods''),
     (1, ''Low-Carb Foods''),
     (2, ''Low-Fat Foods''),
     (3, ''Low-Carb Foods''),
     (4, ''Low-Fat Foods''),
     (5, ''Balanced (Low-Calorie) Foods'')]"

text \<open>\<^verbatim>\<open>d.get(key, default)\<close> on a dictionary given by its items.\<close>

definition dict_get :: "('k \<times> 'v) list \<Rightarrow> 'k \<Rightarrow> 'v \<Rightarrow> 'v" where
  "dict_get d k dflt = (case map_of d k of Some v \<Rightarrow> v | None \<Rightarrow> dflt)"

text \<open>The first two statements of \<^verbatim>\<open>get_cluster_recommendations\<close>.\<close>

definition profile_name_of :: "int \<Rightarrow> string" where
  "profile_name_of user_cluster =
     dict_get CLUSTER_PROFILE user_cluster (''Cluster '' @ str_int user_cluster)"

definition recommendation_type_of :: "int \<Rightarrow> string" where
  "recommendation_type_of user_cluster =
     dict_get CLUSTER_RECOMMENDATION_TYPE user_cluster ''Balanced (Low-Calorie) Foods''"

subsection \<open>Floating-point values and JSON values\<close>

text \<open>
  A Python float is an IEEE 754 binary64 number. It is modelled by its value: a finite
  number, given as the rational it denotes, one of the two infinities, or NaN. The two
  zeros are one value: they compare equal, and no step of the program divides by a
  cell.
\<close>

datatype pyfloat = Fin rat | PInf | NInf | NaN

text \<open>What \<^verbatim>\<open>request.get_json()\<close> can return.\<close>

datatype json =
    JNull
  | JBool bool
  | JInt int
  | JFloat pyfloat
  | JStr string
  | JArr "json list"
  | JObj "(string \<times> json) list"

text \<open>Python truthiness, as \<^verbatim>\<open>if not data\<close> tests it.\<close>

fun truthy :: "json \<Rightarrow> bool" where
  "truthy JNull = False"
| "truthy (JBool b) = b"
| "truthy (JInt i) = (i \<noteq> 0)"
| "truthy (JFloat x) = (x \<noteq> Fin 0)"
| "truthy (JStr s) = (s \<noteq> [])"
| "truthy (JArr xs) = (xs \<noteq> [])"
| "truthy (JObj items) = (items \<noteq> [])"

subsection \<open>The built-in \<^verbatim>\<open>float()\<close>\<close>

text \<open>
  \<^verbatim>\<open>validate_request\<close> calls \<^verbatim>\<open>float(data[field])\<close> and discards the value, so the
  model records only which exception the call raises, if any. A text of the model is a
  list of 8-bit characters, read as the code points U+0000 to U+00FF. For a string the
  accepted texts are those of the language reference:
  \<^verbatim>\<open>
  digitpart   ::= digit (["_"] digit)*
  number      ::= [digitpart] "." digitpart | digitpart ["."]
  exponent    ::= ("e" | "E") [sign] digitpart
  floatnumber ::= number [exponent]
  floatvalue  ::= [sign] (floatnumber | "inf" | "infinity" | "nan")\<close>
  with surrounding white space stripped and the three words matched without regard to
  case. The conversion first replaces every white-space character beyond ASCII by a
  space, which in the range of the model are U+0085 and U+00A0, and every decimal digit
  beyond ASCII, of which the range of the model has none, by its ASCII digit; then it
  strips the white space of C, which is the space and the characters 9 to 13. The
  separators 28 to 31 are white space for \<^verbatim>\<open>str.isspace\<close> but are not stripped here.
\<close>

datatype floatlit = LitNumber | LitInf | LitNaN

definition space_to_ascii :: "char \<Rightarrow> char" where
  "space_to_ascii c = (if c = CHR 0x85 \<or> c = CHR 0xA0 then CHR 0x20 else c)"

definition py_isspace :: "char \<Rightarrow> bool" where
  "py_isspace c = (c \<in> set [CHR 0x09, CHR 0x0A, CHR 0x0B, CHR 0x0C, CHR 0x0D, CHR 0x20])"

definition py_strip :: "string \<Rightarrow> string" where
  "py_strip s = rev (dropWhile py_isspace (rev (dropWhile py_isspace s)))"

definition is_digit :: "char \<Rightarrow> bool" where
  "is_digit c = (c \<in> set ''0123456789'')"

definition ascii_lower :: "char \<Rightarrow> char" where
  "ascii_lower c =
     (case map_of (zip ''ABCDEFGHIJKLMNOPQRSTUVWXYZ'' ''abcdefghijklmnopqrstuvwxyz'') c of
        Some l \<Rightarrow> l | None \<Rightarrow> c)"

fun digitpart :: "string \<Rightarrow> bool" where
  "digitpart [] = False"
| "digitpart [c] = is_digit c"
| "digitpart (c # d # cs) =
     (is_digit c \<and> (if d = CHR ''_'' then digitpart cs else digitpart (d # cs)))"

text \<open>The text before the first character satisfying \<open>P\<close>, and the text after it if there is one.\<close>

definition split_first :: "(char \<Rightarrow> bool) \<Rightarrow> string \<Rightarrow> string \<times> string option" where
  "split_first P s =
     (takeWhile (\<lambda>c. \<not> P c) s,
      case dropWhile (\<lambda>c. \<not> P c) s of [] \<Rightarrow> None | _ # r \<Rightarrow> Some r)"

definition strip_sign :: "string \<Rightarrow> string" where
  "strip_sign s =
     (case s of [] \<Rightarrow> [] | c # r \<Rightarrow> if c = CHR ''+'' \<or> c = CHR ''-'' then r else s)"

definition number_ok :: "string \<Rightarrow> bool" where
  "number_ok s =
     (case split_first (\<lambda>c. c = CHR ''.'') s of
        (a, None) \<Rightarrow> digitpart a
      | (a, Some b) \<Rightarrow> (digitpart b \<and> (a = [] \<or> digitpart a)) \<or> (b = [] \<and> digitpart a))"

definition floatnumber_ok :: "string \<Rightarrow> bool" where
  "floatnumber_ok s =
     (case split_first (\<lambda>c. c = CHR ''e'' \<or> c = CHR ''E'') s of
        (m, None) \<Rightarrow> number_ok m
      | (m, Some e) \<Rightarrow> number_ok m \<and> digitpart (strip_sign e))"

definition py_float_str :: "string \<Rightarrow> floatlit option" where
  "py_float_str s =
     (let body = strip_sign (py_strip (map space_to_ascii s)); word = map ascii_lower body in
      if word = ''inf'' \<or> word = ''infinity'' then Some LitInf
      else if word = ''nan'' then Some LitNaN
      else if floatnumber_ok body then Some LitNumber
      else None)"

text \<open>
  An integer converts unless it rounds to a magnitude beyond the largest double, which
  raises \<^verbatim>\<open>OverflowError\<close>; \<^verbatim>\<open>None\<close>, lists and dictionaries raise
  \<^verbatim>\<open>TypeError\<close>; a string outside the grammar raises \<^verbatim>\<open>ValueError\<close>.
\<close>

fun float_raises :: "json \<Rightarrow> pyerror option" where
  "float_raises JNull = Some TypeError"
| "float_raises (JBool b) = None"
| "float_raises (JInt i) = (if 2 ^ 1024 - 2 ^ 970 \<le> \<bar>i\<bar> then Some OverflowError else None)"
| "float_raises (JFloat x) = None"
| "float_raises (JStr s) = (case py_float_str s of None \<Rightarrow> Some ValueError | Some _ \<Rightarrow> None)"
| "float_raises (JArr xs) = Some TypeError"
| "float_raises (JObj items) = Some TypeError"

subsection \<open>\<^verbatim>\<open>validate_request\<close>\<close>

definition REQUIRED_KEYS :: "string list" where
  "REQUIRED_KEYS =
    [''Age'', ''BMI'', ''Chronic_Disease'', ''Blood_Pressure_Systolic'',
     ''Blood_Sugar_Level'', ''Daily_Steps'', ''Exercise_Frequency'',
     ''Alcohol_Consumption'', ''Smoking_Habit'', ''Dietary_Habits'']"

definition ALLOWED_VALUES :: "(string \<times> string list) list" where
  "ALLOWED_VALUES =
    [(''Chronic_Disease'', [''None'', ''Diabetes'', ''Heart Disease'', ''Hypertension'', ''Obesity'']),
     (''Alcohol_Consumption'', [''No'', ''Yes'']),
     (''Smoking_Habit'', [''No'', ''Yes'']),
     (''Dietary_Habits'', [''Regular'', ''Vegetarian'', ''Vegan'', ''Keto''])]"

definition numeric_fields :: "string list" where
  "numeric_fields =
    [''Age'', ''BMI'', ''Blood_Pressure_Systolic'', ''Blood_Sugar_Level'',
     ''Daily_Steps'', ''Exercise_Frequency'']"

text \<open>
  The error dictionary of a rejection, by its kind and the values formatted into its
  message: the sorted key list, the offending field and value with the allowed list, or
  the field that is not a number.
\<close>

datatype reject =
    NoData
  | MissingKeys "string list"
  | UnexpectedKeys "string list"
  | InvalidValue string json "string list"
  | NotANumber string

text \<open>\<^verbatim>\<open>value in allowed_list\<close>: only a string can equal a member of a list of strings.\<close>

fun json_in :: "json \<Rightarrow> string list \<Rightarrow> bool" where
  "json_in (JStr s) allowed = (s \<in> set allowed)"
| "json_in _ allowed = False"

text \<open>The loop over \<^verbatim>\<open>ALLOWED_VALUES.items()\<close>, returning at the first invalid value.\<close>

fun check_categorical :: "(string \<times> string list) list \<Rightarrow> (string \<rightharpoonup> json) \<Rightarrow> reject option" where
  "check_categorical [] d = None"
| "check_categorical ((key, allowed_list) # rest) d =
     (case d key of
        None \<Rightarrow> check_categorical rest d
      | Some v \<Rightarrow>
          if \<not> json_in v allowed_list then Some (InvalidValue key v allowed_list)
          else check_categorical rest d)"

text \<open>
  The loop over \<^verbatim>\<open>numeric_fields\<close>: \<^verbatim>\<open>ValueError\<close> and \<^verbatim>\<open>TypeError\<close> are caught and
  reported, any other exception leaves the function.
\<close>

fun check_numeric :: "string list \<Rightarrow> (string \<rightharpoonup> json) \<Rightarrow> pyerror + reject option" where
  "check_numeric [] d = Inr None"
| "check_numeric (field # rest) d =
     (case d field of
        None \<Rightarrow> check_numeric rest d
      | Some v \<Rightarrow>
          (case float_raises v of
             None \<Rightarrow> check_numeric rest d
           | Some e \<Rightarrow>
               if e = ValueError \<or> e = TypeError then Inr (Some (NotANumber field))
               else Inl e))"

text \<open>
  The result is the triple \<^verbatim>\<open>(is_valid, error_response, status_code)\<close>. A truthy value
  that is not a dictionary has no \<^verbatim>\<open>keys\<close> method.
\<close>

definition validate_request :: "json \<Rightarrow> pyerror + (bool \<times> reject option \<times> nat)" where
  "validate_request data =
     (if \<not> truthy data then Inr (False, Some NoData, 400)
      else case data of
        JObj items \<Rightarrow>
          (let received_keys = set (map fst items);
               required_keys_set = set REQUIRED_KEYS;
               missing_keys = required_keys_set - received_keys
           in if missing_keys \<noteq> {}
              then Inr (False, Some (MissingKeys (sorted_list_of_set missing_keys)), 400)
              else
                let extra_keys = received_keys - required_keys_set
                in if extra_keys \<noteq> {}
                   then Inr (False, Some (UnexpectedKeys (sorted_list_of_set extra_keys)), 400)
                   else
                     (case check_categorical ALLOWED_VALUES (map_of items) of
                        Some r \<Rightarrow> Inr (False, Some r, 400)
                      | None \<Rightarrow>
                          (case check_numeric numeric_fields (map_of items) of
                             Inl e \<Rightarrow> Inl e
                           | Inr (Some r) \<Rightarrow> Inr (False, Some r, 400)
                           | Inr None \<Rightarrow> Inr (True, None, 200))))
      | _ \<Rightarrow> Inl AttributeError)"

subsection \<open>Arithmetic and order of floats\<close>

text \<open>
  Rounding of a real result to binary64, to nearest with ties to even. The result is a
  multiple of the unit in the last place, which is \<^verbatim>\<open>2^(e-52)\<close> for a magnitude from
  \<^verbatim>\<open>2^e\<close> up to \<^verbatim>\<open>2^(e+1)\<close>, and \<^verbatim>\<open>2^-1074\<close> for a magnitude below \<^verbatim>\<open>2^-1022\<close>;
  a result that rounds to \<^verbatim>\<open>2^1024\<close> or beyond is an infinity. \<open>ilog2 n\<close> is the
  position of the highest bit of a positive integer.
\<close>

function ilog2 :: "int \<Rightarrow> int" where
  "ilog2 n = (if n < 2 then 0 else 1 + ilog2 (n div 2))"
  by auto
termination
  by (relation "measure nat") auto

definition pow2 :: "int \<Rightarrow> rat" where
  "pow2 e = (if 0 \<le> e then 2 ^ nat e else 1 / 2 ^ nat (- e))"

text \<open>The \<open>e\<close> with \<open>pow2 e \<le> q\<close> and \<open>q < pow2 (e + 1)\<close>, for a positive \<open>q\<close>.\<close>

definition binary_exponent :: "rat \<Rightarrow> int" where
  "binary_exponent q =
     (let (a, b) = quotient_of q;
          d = ilog2 a - ilog2 b
      in if pow2 d \<le> q then d else d - 1)"

definition round_half_even :: "rat \<Rightarrow> int" where
  "round_half_even q =
     (let n = \<lfloor>q\<rfloor>; r = q - of_int n
      in if r < 1 / 2 then n else if 1 / 2 < r then n + 1 else if even n then n else n + 1)"

definition round64 :: "rat \<Rightarrow> pyfloat" where
  "round64 q =
     (if q = 0 then Fin 0
      else let e = max (binary_exponent \<bar>q\<bar>) (- 1022);
               ulp = pow2 (e - 52);
               r = of_int (round_half_even (\<bar>q\<bar> / ulp)) * ulp
           in if pow2 1024 \<le> r then (if 0 < q then PInf else NInf)
              else Fin (if 0 < q then r else - r))"

text \<open>
  The arithmetic of floats: the IEEE rules for the special values, and on finite values
  the exact result rounded. A zero divisor or factor is taken as positive zero.
\<close>

fun fneg :: "pyfloat \<Rightarrow> pyfloat" where
  "fneg (Fin a) = Fin (- a)"
| "fneg PInf = NInf"
| "fneg NInf = PInf"
| "fneg NaN = NaN"

fun fadd :: "pyfloat \<Rightarrow> pyfloat \<Rightarrow> pyfloat" where
  "fadd (Fin a) (Fin b) = round64 (a + b)"
| "fadd NaN y = NaN"
| "fadd x NaN = NaN"
| "fadd PInf NInf = NaN"
| "fadd NInf PInf = NaN"
| "fadd PInf y = PInf"
| "fadd NInf y = NInf"
| "fadd (Fin a) y = y"

definition fsub :: "pyfloat \<Rightarrow> pyfloat \<Rightarrow> pyfloat" where
  "fsub x y = fadd x (fneg y)"

fun fnonneg :: "pyfloat \<Rightarrow> bool" where
  "fnonneg (Fin a) = (0 \<le> a)"
| "fnonneg PInf = True"
| "fnonneg NInf = False"
| "fnonneg NaN = False"

fun fmul :: "pyfloat \<Rightarrow> pyfloat \<Rightarrow> pyfloat" where
  "fmul (Fin a) (Fin b) = round64 (a * b)"
| "fmul NaN y = NaN"
| "fmul x NaN = NaN"
| "fmul x y =
     (if x = Fin 0 \<or> y = Fin 0 then NaN
      else if fnonneg x = fnonneg y then PInf else NInf)"

fun fdiv :: "pyfloat \<Rightarrow> pyfloat \<Rightarrow> pyfloat" where
  "fdiv (Fin a) (Fin b) =
     (if b \<noteq> 0 then round64 (a / b)
      else if a = 0 then NaN else if 0 < a then PInf else NInf)"
| "fdiv NaN y = NaN"
| "fdiv x NaN = NaN"
| "fdiv (Fin a) y = Fin 0"
| "fdiv x (Fin b) = (if fnonneg x = (0 \<le> b) then PInf else NInf)"
| "fdiv x y = NaN"

text \<open>\<open>fle x y\<close>: both are numbers and \<open>x \<le> y\<close>.\<close>

fun fle :: "pyfloat \<Rightarrow> pyfloat \<Rightarrow> bool" where
  "fle NaN y = False"
| "fle x NaN = False"
| "fle NInf y = True"
| "fle x PInf = True"
| "fle (Fin a) (Fin b) = (a \<le> b)"
| "fle x y = False"

subsection \<open>Data frames\<close>

text \<open>
  A cell of a frame read by \<^verbatim>\<open>pd.read_csv\<close> is a number (a missing value is NaN,
  a boolean counts as 1 or 0) or a text. A number is a float; a column of integers is
  read as the floats of its values, which they are exactly up to a magnitude of
  \<^verbatim>\<open>2^53\<close>. A frame is its list of column labels, which \<^verbatim>\<open>read_csv\<close> keeps distinct, and
  its rows in order; a row gives the cell under each label, and only the cells under
  the frame's labels are ever read.
\<close>

datatype cell = Num pyfloat | Str string

type_synonym row = "string \<Rightarrow> cell"

record dataframe =
  columns :: "string list"
  rows :: "row list"

text \<open>
  What the code takes from pandas and does not define itself: how \<^verbatim>\<open>pd.to_numeric\<close>
  reads a text (\<open>None\<close> when it cannot), how \<^verbatim>\<open>astype(str)\<close> prints a number, and
  the row positions, in output order, that \<^verbatim>\<open>sort_values(ascending=False)\<close> computes
  from the key column with its default algorithm.
\<close>

record pandas =
  parse_numeric :: "string \<Rightarrow> pyfloat option"
  str_of_float :: "pyfloat \<Rightarrow> string"
  sort_indexer :: "pyfloat list \<Rightarrow> nat list"

text \<open>
  The documented contract of a descending sort: the positions are a permutation of all
  row positions, keys do not increase along them, and NaN keys come last. Nothing is
  said about the order of rows with equal keys.
\<close>

definition before_desc :: "pyfloat \<Rightarrow> pyfloat \<Rightarrow> bool" where
  "before_desc a b = (b = NaN \<or> fle b a)"

definition sort_values_ok :: "(pyfloat list \<Rightarrow> nat list) \<Rightarrow> bool" where
  "sort_values_ok ix =
     (\<forall>keys. mset (ix keys) = mset [0..<length keys] \<and>
             sorted_wrt (\<lambda>i j. before_desc (keys ! i) (keys ! j)) (ix keys))"

definition bind_err :: "'x + 'a \<Rightarrow> ('a \<Rightarrow> 'x + 'b) \<Rightarrow> 'x + 'b" where
  "bind_err m f = (case m of Inl err \<Rightarrow> Inl err | Inr v \<Rightarrow> f v)"

fun collect_err :: "('e + 'a) list \<Rightarrow> 'e + 'a list" where
  "collect_err [] = Inr []"
| "collect_err (m # ms) =
     bind_err m (\<lambda>x. bind_err (collect_err ms) (\<lambda>xs. Inr (x # xs)))"

text \<open>\<^verbatim>\<open>df[col]\<close>: the column as a list of cells, or \<^verbatim>\<open>KeyError\<close>.\<close>

definition df_getitem :: "dataframe \<Rightarrow> string \<Rightarrow> pyerror + cell list" where
  "df_getitem df col =
     (if col \<in> set (columns df) then Inr (map (\<lambda>r. r col) (rows df)) else Inl KeyError)"

text \<open>\<^verbatim>\<open>df[col] = series\<close>: replaces the column, or appends it as the last one.\<close>

definition df_setitem :: "dataframe \<Rightarrow> string \<Rightarrow> cell list \<Rightarrow> dataframe" where
  "df_setitem df col vals =
     df\<lparr>columns := (if col \<in> set (columns df) then columns df else columns df @ [col]),
        rows := map (\<lambda>(r, v). r(col := v)) (zip (rows df) vals)\<rparr>"

text \<open>\<^verbatim>\<open>df[col] = scalar\<close>: the same value in every row.\<close>

definition df_setitem_scalar :: "dataframe \<Rightarrow> string \<Rightarrow> cell \<Rightarrow> dataframe" where
  "df_setitem_scalar df col v = df_setitem df col (replicate (length (rows df)) v)"

text \<open>\<^verbatim>\<open>df[list_of_cols]\<close>: the frame with exactly these columns.\<close>

definition df_select :: "dataframe \<Rightarrow> string list \<Rightarrow> pyerror + dataframe" where
  "df_select df cols =
     (if set cols \<subseteq> set (columns df) then Inr (df\<lparr>columns := cols\<rparr>) else Inl KeyError)"

text \<open>\<^verbatim>\<open>df[mask]\<close>: the rows where the boolean series holds.\<close>

definition df_filter :: "dataframe \<Rightarrow> bool list \<Rightarrow> dataframe" where
  "df_filter df keep = df\<lparr>rows := map fst (filter snd (zip (rows df) keep))\<rparr>"

definition df_head :: "nat \<Rightarrow> dataframe \<Rightarrow> dataframe" where
  "df_head n df = df\<lparr>rows := take n (rows df)\<rparr>"

text \<open>\<^verbatim>\<open>pd.to_numeric(series, errors='coerce')\<close> and \<^verbatim>\<open>series.fillna(0)\<close>.\<close>

fun coerce :: "pandas \<Rightarrow> cell \<Rightarrow> cell" where
  "coerce lib (Num x) = Num x"
| "coerce lib (Str s) = (case parse_numeric lib s of Some x \<Rightarrow> Num x | None \<Rightarrow> Num NaN)"

definition to_numeric :: "pandas \<Rightarrow> cell list \<Rightarrow> cell list" where
  "to_numeric lib series = map (coerce lib) series"

fun fillna0_cell :: "cell \<Rightarrow> cell" where
  "fillna0_cell (Num x) = (if x = NaN then Num (Fin 0) else Num x)"
| "fillna0_cell (Str s) = Str s"

definition fillna0 :: "cell list \<Rightarrow> cell list" where
  "fillna0 series = map fillna0_cell series"

text \<open>\<^verbatim>\<open>df[cols] = df[cols].fillna(0)\<close>.\<close>

definition df_fillna_cols :: "dataframe \<Rightarrow> string list \<Rightarrow> pyerror + dataframe" where
  "df_fillna_cols df cols =
     (if set cols \<subseteq> set (columns df)
      then Inr (df\<lparr>rows := map (\<lambda>r c. if c \<in> set cols then fillna0_cell (r c) else r c) (rows df)\<rparr>)
      else Inl KeyError)"

text \<open>\<^verbatim>\<open>series == user_cluster\<close> for an integer: a number equal to it; NaN and texts are not.\<close>

fun cell_eq_int :: "cell \<Rightarrow> int \<Rightarrow> bool" where
  "cell_eq_int (Num (Fin a)) i = (a = of_int i)"
| "cell_eq_int _ i = False"

text \<open>
  \<^verbatim>\<open>df.sort_values(by=col, ascending=False)\<close>. The key column of the one call in the
  program is the score column, which holds numbers; a text key is reported as
  \<^verbatim>\<open>TypeError\<close>.
\<close>

fun cell_float :: "cell \<Rightarrow> pyerror + pyfloat" where
  "cell_float (Num x) = Inr x"
| "cell_float (Str s) = Inl TypeError"

definition sort_values_desc :: "pandas \<Rightarrow> string \<Rightarrow> dataframe \<Rightarrow> pyerror + dataframe" where
  "sort_values_desc lib key_col df =
     bind_err (df_getitem df key_col) (\<lambda>series.
     bind_err (collect_err (map cell_float series)) (\<lambda>keys.
     Inr (df\<lparr>rows := map (\<lambda>i. rows df ! i) (sort_indexer lib keys)\<rparr>)))"

subsection \<open>Objects and references\<close>

text \<open>
  Frames are mutable objects. The heap lists the objects created so far, a reference
  is a position in it, and the module global \<^verbatim>\<open>food_df\<close> holds a reference or
  \<^verbatim>\<open>None\<close>. Every pandas call that returns a new frame allocates; an item
  assignment changes the object its reference points to.
\<close>

record pystate =
  heap :: "dataframe list"
  food_df :: "nat option"

definition deref :: "pystate \<Rightarrow> nat \<Rightarrow> dataframe" where
  "deref s a = heap s ! a"

definition alloc :: "dataframe \<Rightarrow> pystate \<Rightarrow> nat \<times> pystate" where
  "alloc d s = (length (heap s), s\<lparr>heap := heap s @ [d]\<rparr>)"

definition store :: "nat \<Rightarrow> dataframe \<Rightarrow> pystate \<Rightarrow> pystate" where
  "store a d s = s\<lparr>heap := (heap s)[a := d]\<rparr>"

text \<open>An in-place change of the object at \<open>a\<close> by a step that may raise.\<close>

definition modify :: "nat \<Rightarrow> (dataframe \<Rightarrow> pyerror + dataframe) \<Rightarrow> pystate \<Rightarrow> pyerror + pystate" where
  "modify a f s = bind_err (f (deref s a)) (\<lambda>d. Inr (store a d s))"

subsection \<open>\<^verbatim>\<open>get_cluster_recommendations\<close>\<close>

text \<open>
  Lines 176 to 189: \<^verbatim>\<open>working_df\<close> starts as a copy of the catalog; with a Cluster
  column the copy's column is coerced to numbers and the matching rows are taken as a
  new frame, and when there are none a fresh copy of the catalog is used.
\<close>

definition select_candidates :: "pandas \<Rightarrow> int \<Rightarrow> pystate \<Rightarrow> pyerror + (nat \<times> pystate)" where
  "select_candidates lib user_cluster s0 =
     (case food_df s0 of
        None \<Rightarrow> Inl AttributeError
      | Some fa \<Rightarrow>
          (case alloc (deref s0 fa) s0 of (w, s1) \<Rightarrow>
             if ''Cluster'' \<in> set (columns (deref s1 w)) then
               bind_err (modify w (\<lambda>df.
                   bind_err (df_getitem df ''Cluster'') (\<lambda>series.
                   Inr (df_setitem df ''Cluster'' (to_numeric lib series)))) s1) (\<lambda>s2.
               bind_err (df_getitem (deref s2 w) ''Cluster'') (\<lambda>series.
               (case alloc (df_filter (deref s2 w) (map (\<lambda>x. cell_eq_int x user_cluster) series)) s2 of
                  (w', s3) \<Rightarrow>
                    if length (rows (deref s3 w')) = 0
                    then Inr (alloc (deref s3 fa) s3)
                    else Inr (w', s3))))
             else Inr (w, s1)))"

text \<open>Lines 191 to 201: the loop over Protein, Fat and Calories, then \<^verbatim>\<open>fillna(0)\<close>.\<close>

fun ensure_numeric :: "pandas \<Rightarrow> string list \<Rightarrow> dataframe \<Rightarrow> pyerror + dataframe" where
  "ensure_numeric lib [] df = Inr df"
| "ensure_numeric lib (col # cols) df =
     (if col \<notin> set (columns df)
      then ensure_numeric lib cols (df_setitem_scalar df col (Num (Fin 0)))
      else bind_err (df_getitem df col) (\<lambda>series.
           ensure_numeric lib cols (df_setitem df col (to_numeric lib series))))"

text \<open>
  Lines 203 to 209. On numbers the score is \<open>Protein * 2 - Fat * 1.5 - Calories / 50\<close>;
  with a text among the three operands the expression raises \<^verbatim>\<open>TypeError\<close>.
\<close>

fun score_cell :: "cell \<Rightarrow> cell \<Rightarrow> cell \<Rightarrow> pyerror + cell" where
  "score_cell (Num p) (Num f) (Num c) =
     Inr (Num (fsub (fsub (fmul p (Fin 2)) (fmul f (Fin (3 / 2)))) (fdiv c (Fin 50))))"
| "score_cell _ _ _ = Inl TypeError"

definition add_score :: "dataframe \<Rightarrow> pyerror + dataframe" where
  "add_score df =
     bind_err (df_getitem df ''Protein'') (\<lambda>protein.
     bind_err (df_getitem df ''Fat'') (\<lambda>fat.
     bind_err (df_getitem df ''Calories'') (\<lambda>calories.
     bind_err (collect_err (map (\<lambda>(p, f, c). score_cell p f c) (zip protein (zip fat calories))))
       (\<lambda>score. Inr (df_setitem df ''score'' score)))))"

definition score_candidates :: "pandas \<Rightarrow> nat \<Rightarrow> pystate \<Rightarrow> pyerror + pystate" where
  "score_candidates lib w s =
     bind_err (modify w (ensure_numeric lib [''Protein'', ''Fat'', ''Calories'']) s) (\<lambda>s1.
     bind_err (modify w (\<lambda>df. df_fillna_cols df [''Protein'', ''Fat'', ''Calories'']) s1) (\<lambda>s2.
     modify w add_score s2))"

text \<open>Line 212: the sorted frame and its first ten rows are new objects.\<close>

definition top_ten :: "pandas \<Rightarrow> nat \<Rightarrow> pystate \<Rightarrow> pyerror + (nat \<times> pystate)" where
  "top_ten lib w s =
     bind_err (sort_values_desc lib ''score'' (deref s w)) (\<lambda>sorted_df.
     (case alloc sorted_df s of (t, s1) \<Rightarrow> Inr (alloc (df_head 10 (deref s1 t)) s1)))"

text \<open>Lines 214 to 236: the six required fields, with defaults, cleaned once more.\<close>

definition required_fields :: "string list" where
  "required_fields = [''Food'', ''Category'', ''Protein'', ''Fat'', ''Carbs'', ''Calories'']"

fun ensure_fields :: "string list \<Rightarrow> dataframe \<Rightarrow> dataframe" where
  "ensure_fields [] df = df"
| "ensure_fields (field # rest) df =
     ensure_fields rest
       (if field \<notin> set (columns df)
        then (if field \<in> set [''Protein'', ''Fat'', ''Carbs'', ''Calories'']
              then df_setitem_scalar df field (Num (Fin 0))
              else df_setitem_scalar df field (Str ''''))
        else df)"

fun final_cleanup :: "pandas \<Rightarrow> string list \<Rightarrow> dataframe \<Rightarrow> pyerror + dataframe" where
  "final_cleanup lib [] df = Inr df"
| "final_cleanup lib (field # rest) df =
     (if field \<in> set (columns df)
      then bind_err (df_getitem df field) (\<lambda>series.
           final_cleanup lib rest (df_setitem df field (fillna0 (to_numeric lib series))))
      else final_cleanup lib rest df)"

definition project_fields :: "pandas \<Rightarrow> nat \<Rightarrow> pystate \<Rightarrow> pyerror + (nat \<times> pystate)" where
  "project_fields lib r s =
     bind_err (modify r (\<lambda>df. Inr (ensure_fields required_fields df)) s) (\<lambda>s1.
     bind_err (modify r (\<lambda>df.
         if ''Carbs'' \<in> set (columns df)
         then bind_err (df_getitem df ''Carbs'') (\<lambda>series.
              Inr (df_setitem df ''Carbs'' (fillna0 (to_numeric lib series))))
         else Inr df) s1) (\<lambda>s2.
     bind_err (df_select (deref s2 r) required_fields) (\<lambda>selected.
     (case alloc selected s2 of (t, s3) \<Rightarrow>
     (case alloc (deref s3 t) s3 of (r', s4) \<Rightarrow>
     bind_err (modify r' (final_cleanup lib [''Protein'', ''Fat'', ''Carbs'', ''Calories'']) s4)
       (\<lambda>s5. Inr (r', s5)))))))"

text \<open>
  The whole function: the two policy look-ups, then the four steps. It returns the
  profile name, the recommendation type and the reference to the result frame.
\<close>

definition get_cluster_recommendations ::
  "pandas \<Rightarrow> int \<Rightarrow> pystate \<Rightarrow> pyerror + ((string \<times> string \<times> nat) \<times> pystate)" where
  "get_cluster_recommendations lib user_cluster s =
     (let profile_name = profile_name_of user_cluster;
          recommendation_type = recommendation_type_of user_cluster
      in bind_err (select_candidates lib user_cluster s) (\<lambda>(w, s1).
         bind_err (score_candidates lib w s1) (\<lambda>s2.
         bind_err (top_ten lib w s2) (\<lambda>(r, s3).
         bind_err (project_fields lib r s3) (\<lambda>(r', s4).
         Inr ((profile_name, recommendation_type, r'), s4))))))"

text \<open>
  A sort that meets the contract, used to run the model on examples: positions ordered
  by a rank that puts larger keys first and NaN last.
\<close>

fun desc_rank :: "pyfloat \<Rightarrow> nat \<times> rat" where
  "desc_rank PInf = (0, 0)"
| "desc_rank (Fin a) = (1, - a)"
| "desc_rank NInf = (2, 0)"
| "desc_rank NaN = (3, 0)"

definition rank_indexer :: "pyfloat list \<Rightarrow> nat list" where
  "rank_indexer keys = sort_key (\<lambda>i. desc_rank (keys ! i)) [0..<length keys]"

text \<open>
  A reader of plain decimal texts, also for examples: digits with an optional fraction,
  read as the nearest float.
\<close>

definition digit_val :: "char \<Rightarrow> nat" where
  "digit_val c = length (takeWhile (\<lambda>d. d \<noteq> c) ''0123456789'')"

definition nat_of_digits :: "string \<Rightarrow> nat" where
  "nat_of_digits ds = foldl (\<lambda>n c. 10 * n + digit_val c) 0 ds"

definition parse_decimal :: "string \<Rightarrow> pyfloat option" where
  "parse_decimal s =
     (case split_first (\<lambda>c. c = CHR ''.'') s of
        (a, None) \<Rightarrow>
          if a \<noteq> [] \<and> list_all is_digit a then Some (round64 (of_nat (nat_of_digits a))) else None
      | (a, Some b) \<Rightarrow>
          if a \<noteq> [] \<and> b \<noteq> [] \<and> list_all is_digit a \<and> list_all is_digit b
          then Some (round64 (of_nat (nat_of_digits a) + of_nat (nat_of_digits b) / 10 ^ length b))
          else None)"

definition example_lib :: pandas where
  "example_lib = \<lparr>parse_numeric = parse_decimal, str_of_float = (\<lambda>x. ''nan''),
                   sort_indexer = rank_indexer\<rparr>"

definition mk_row :: "(string \<times> cell) list \<Rightarrow> row" where
  "mk_row kvs = (\<lambda>c. case map_of kvs c of Some v \<Rightarrow> v | None \<Rightarrow> Num NaN)"

definition scenario_catalog :: dataframe where
  "scenario_catalog =
     \<lparr>columns = [''Food'', ''Protein'', ''Fat'', ''Carbs'', ''Calories'', ''Category''],
      rows = [mk_row [(''Food'', Str ''Broccoli''), (''Protein'', Num (round64 (28 / 10))),
                      (''Fat'', Num (round64 (4 / 10))), (''Carbs'', Num (round64 (66 / 10))),
                      (''Calories'', Num (Fin 34)), (''Category'', Str ''Vegetables'')],
              mk_row [(''Food'', Str ''Bacon''), (''Protein'', Num (Fin 12)),
                      (''Fat'', Num (Fin 40)), (''Carbs'', Num (Fin 0)),
                      (''Calories'', Num (Fin 420)), (''Category'', Str ''Meat'')]]\<rparr>"

text \<open>
  A second example catalog, with a Cluster column, texts among the numbers and no Carbs
  column; and the state of the program once a catalog is loaded: one object, the global
  pointing to it.
\<close>

definition clustered_catalog :: dataframe where
  "clustered_catalog =
     \<lparr>columns = [''Food'', ''Protein'', ''Fat'', ''Calories'', ''Cluster''],
      rows = [mk_row [(''Food'', Str ''Oats''), (''Protein'', Num (Fin 13)),
                      (''Fat'', Num (Fin 7)), (''Calories'', Str ''389''),
                      (''Cluster'', Str ''2'')],
              mk_row [(''Food'', Str ''Butter''), (''Protein'', Num (Fin 1)),
                      (''Fat'', Num (Fin 81)), (''Calories'', Num (Fin 717)),
                      (''Cluster'', Num (Fin 1))],
              mk_row [(''Food'', Str ''Lentils''), (''Protein'', Num (Fin 9)),
                      (''Fat'', Str ''n/a''), (''Calories'', Num (Fin 116)),
                      (''Cluster'', Str ''two'')]]\<rparr>"

definition loaded :: "dataframe \<Rightarrow> pystate" where
  "loaded df = \<lparr>heap = [df], food_df = Some 0\<rparr>"

subsection \<open>The engine's steps as the specification words them\<close>

text \<open>
  The definitions of this part follow the specification, not the code; the theorems on
  the engine compare the code's steps with them. First the cluster partition: the rows
  whose Cluster cell, read as a number, equals the requested id.
\<close>

definition cluster_partition :: "pandas \<Rightarrow> int \<Rightarrow> dataframe \<Rightarrow> row list" where
  "cluster_partition lib cluster_id df =
     filter (\<lambda>r. cell_eq_int (r ''Cluster'') cluster_id)
       (map (\<lambda>r. r(''Cluster'' := coerce lib (r ''Cluster''))) (rows df))"

text \<open>
  A nutrient of an item for the purpose of the score: 0 when the column is missing, when
  the cell is a missing value, or when it is a text that cannot be read as a number.
\<close>

definition value_or_zero :: "pandas \<Rightarrow> dataframe \<Rightarrow> row \<Rightarrow> string \<Rightarrow> pyfloat" where
  "value_or_zero lib df r col =
     (if col \<notin> set (columns df) then Fin 0
      else case r col of
        Num x \<Rightarrow> if x = NaN then Fin 0 else x
      | Str t \<Rightarrow>
          (case parse_numeric lib t of
             None \<Rightarrow> Fin 0
           | Some x \<Rightarrow> if x = NaN then Fin 0 else x))"

definition spec_score :: "pyfloat \<Rightarrow> pyfloat \<Rightarrow> pyfloat \<Rightarrow> pyfloat" where
  "spec_score protein fat calories =
     fsub (fsub (fmul protein (Fin 2)) (fmul fat (Fin (3 / 2)))) (fdiv calories (Fin 50))"

text \<open>
  An item after scoring: the three nutrients as numbers, the score beside them, every
  other cell as it was.
\<close>

definition scored_row :: "pandas \<Rightarrow> dataframe \<Rightarrow> row \<Rightarrow> row" where
  "scored_row lib df r =
     (\<lambda>c. if c = ''score''
          then Num (spec_score (value_or_zero lib df r ''Protein'')
                               (value_or_zero lib df r ''Fat'')
                               (value_or_zero lib df r ''Calories''))
          else if c \<in> set [''Protein'', ''Fat'', ''Calories'']
          then Num (value_or_zero lib df r c)
          else r c)"

text \<open>
  The number in a cell, and the score of a returned item recomputed from its three
  nutrient cells; a cell is a clean number when it holds a number other than NaN.
\<close>

fun cell_number :: "cell \<Rightarrow> pyfloat" where
  "cell_number (Num x) = x"
| "cell_number (Str t) = NaN"

fun clean_number :: "cell \<Rightarrow> bool" where
  "clean_number (Num x) = (x \<noteq> NaN)"
| "clean_number (Str t) = False"

definition item_score :: "row \<Rightarrow> pyfloat" where
  "item_score r =
     spec_score (cell_number (r ''Protein'')) (cell_number (r ''Fat''))
                (cell_number (r ''Calories''))"

subsection \<open>Cleaning the catalog in \<^verbatim>\<open>load_models_and_data\<close>\<close>

text \<open>
  \<^verbatim>\<open>s.replace(old, new)\<close> of Python, which pandas' \<^verbatim>\<open>str.replace(old, new, regex=False)\<close>
  applies to every text of a column: the occurrences of \<open>old\<close> are replaced from left
  to right without overlap; an empty \<open>old\<close> matches before every character and at
  the end.
\<close>

function str_replace :: "string \<Rightarrow> string \<Rightarrow> string \<Rightarrow> string" where
  "str_replace old new s =
     (if old = [] then new @ concat (map (\<lambda>c. c # new) s)
      else case s of
        [] \<Rightarrow> []
      | c # cs \<Rightarrow>
          if take (length old) s = old
          then new @ str_replace old new (drop (length old) s)
          else c # str_replace old new cs)"
  by pat_completeness auto
termination
  by (relation "measure (\<lambda>(old, new, s). length s)") auto

text \<open>\<^verbatim>\<open>astype(str)\<close> on a cell: a text is itself, a number is printed.\<close>

fun astype_str :: "pandas \<Rightarrow> cell \<Rightarrow> string" where
  "astype_str lib (Str t) = t"
| "astype_str lib (Num x) = str_of_float lib x"

text \<open>
  \<^verbatim>\<open>df[col].dtype == 'object'\<close>: \<^verbatim>\<open>read_csv\<close> gives a column the object type exactly
  when one of its cells is a text that is not a number.
\<close>

definition is_object_column :: "dataframe \<Rightarrow> string \<Rightarrow> bool" where
  "is_object_column df col =
     list_ex (\<lambda>r. case r col of Str t \<Rightarrow> True | Num x \<Rightarrow> False) (rows df)"

definition numeric_cols :: "string list" where
  "numeric_cols = [''Grams'', ''Calories'', ''Protein'', ''Fat'', ''Sat.Fat'', ''Fiber'', ''Carbs'']"

text \<open>Lines 134 to 138: the loop, with its three assignments to the column.\<close>

fun clean_numeric_cols :: "pandas \<Rightarrow> string list \<Rightarrow> dataframe \<Rightarrow> pyerror + dataframe" where
  "clean_numeric_cols lib [] df = Inr df"
| "clean_numeric_cols lib (col # cols) df =
     (if col \<in> set (columns df) \<and> is_object_column df col
      then
        bind_err (df_getitem df col) (\<lambda>series.
        let df1 = df_setitem df col
                    (map (\<lambda>x. Str (str_replace ''t'' ''0'' (astype_str lib x))) series)
        in bind_err (df_getitem df1 col) (\<lambda>series1.
        let df2 = df_setitem df1 col
                    (map (\<lambda>x. Str (str_replace '','' [] (astype_str lib x))) series1)
        in bind_err (df_getitem df2 col) (\<lambda>series2.
        clean_numeric_cols lib cols (df_setitem df2 col (to_numeric lib series2)))))
      else clean_numeric_cols lib cols df)"

text \<open>
  Lines 133 to 141, from the frame \<^verbatim>\<open>read_csv\<close> returned to the cleaned catalog; a
  missing numeric column makes the last statement raise \<^verbatim>\<open>KeyError\<close>, and the load
  fails.
\<close>

definition clean_catalog :: "pandas \<Rightarrow> dataframe \<Rightarrow> pyerror + dataframe" where
  "clean_catalog lib df =
     bind_err (clean_numeric_cols lib numeric_cols df) (\<lambda>d. df_fillna_cols d numeric_cols)"

text \<open>
  The specification's words for one cell of a text column: the cell as a text with
  every "t" replaced by "0" and the commas removed, read as a number, and 0 when it
  cannot be read.
\<close>

definition clean_text :: "pandas \<Rightarrow> cell \<Rightarrow> string" where
  "clean_text lib x =
     filter (\<lambda>c. c \<noteq> CHR '','')
       (map (\<lambda>c. if c = CHR ''t'' then CHR ''0'' else c) (astype_str lib x))"

definition parse_or_zero :: "pandas \<Rightarrow> string \<Rightarrow> pyfloat" where
  "parse_or_zero lib t =
     (case parse_numeric lib t of None \<Rightarrow> Fin 0 | Some x \<Rightarrow> if x = NaN then Fin 0 else x)"

definition raw_catalog :: dataframe where
  "raw_catalog =
     \<lparr>columns = [''Food'', ''Grams'', ''Calories'', ''Protein'', ''Fat'', ''Sat.Fat'', ''Fiber'', ''Carbs''],
      rows = [mk_row [(''Food'', Str ''Cows milk''), (''Grams'', Num (Fin 976)), (''Calories'', Str ''660''),
                      (''Protein'', Str ''32''), (''Fat'', Num (Fin 40)), (''Sat.Fat'', Str ''36''),
                      (''Fiber'', Str ''0''), (''Carbs'', Str ''48'')],
              mk_row [(''Food'', Str ''Lard''), (''Grams'', Num (Fin 110)), (''Calories'', Str ''1,000''),
                      (''Protein'', Str ''t''), (''Fat'', Num NaN), (''Sat.Fat'', Str ''a''),
                      (''Fiber'', Str ''t''), (''Carbs'', Str ''8-44'')]]\<rparr>"

section \<open>Cluster policy resolution\<close>

lemma profile_outside: "c < 0 \<or> 5 < c \<Longrightarrow> map_of CLUSTER_PROFILE c = None"
  by (auto simp: CLUSTER_PROFILE_def)

lemma rectype_outside: "c < 0 \<or> 5 < c \<Longrightarrow> map_of CLUSTER_RECOMMENDATION_TYPE c = None"
  by (auto simp: CLUSTER_RECOMMENDATION_TYPE_def)

lemma profile_inside:
  "0 \<le> c \<Longrightarrow> c \<le> 5 \<Longrightarrow> map_of CLUSTER_PROFILE c \<noteq> None"
proof -
  assume "0 \<le> c" "c \<le> 5"
  then have "c = 0 \<or> c = 1 \<or> c = 2 \<or> c = 3 \<or> c = 4 \<or> c = 5" by arith
  then show ?thesis by (auto simp: CLUSTER_PROFILE_def)
qed

lemma rectype_inside:
  "0 \<le> c \<Longrightarrow> c \<le> 5 \<Longrightarrow> map_of CLUSTER_RECOMMENDATION_TYPE c \<noteq> None"
proof -
  assume "0 \<le> c" "c \<le> 5"
  then have "c = 0 \<or> c = 1 \<or> c = 2 \<or> c = 3 \<or> c = 4 \<or> c = 5" by arith
  then show ?thesis by (auto simp: CLUSTER_RECOMMENDATION_TYPE_def)
qed

text \<open>
  Claim C3. Policy resolution is defined for every integer. For an id from 0 to 5 both
  look-ups return the entry of their table (for 5: "High BMI (Obese) with Diabetes" and
  "Balanced (Low-Calorie) Foods"); for every other integer, negative ones included, the
  profile name is "Cluster " followed by the decimal form of the id and the
  recommendation type is "Balanced (Low-Calorie) Foods".
\<close>

theorem cluster_policy_total:
  "(0 \<le> c \<and> c \<le> 5 \<longrightarrow>
      map_of CLUSTER_PROFILE c = Some (profile_name_of c) \<and>
      map_of CLUSTER_RECOMMENDATION_TYPE c = Some (recommendation_type_of c)) \<and>
   profile_name_of 5 = ''High BMI (Obese) with Diabetes'' \<and>
   recommendation_type_of 5 = ''Balanced (Low-Calorie) Foods'' \<and>
   (c < 0 \<or> 5 < c \<longrightarrow>
      profile_name_of c = ''Cluster '' @ str_int c \<and>
      recommendation_type_of c = ''Balanced (Low-Calorie) Foods'')"
proof (intro conjI impI)
  assume in_range: "0 \<le> c \<and> c \<le> 5"
  from in_range profile_inside [of c]
  show "map_of CLUSTER_PROFILE c = Some (profile_name_of c)"
    by (auto simp: profile_name_of_def dict_get_def)
  from in_range rectype_inside [of c]
  show "map_of CLUSTER_RECOMMENDATION_TYPE c = Some (recommendation_type_of c)"
    by (auto simp: recommendation_type_of_def dict_get_def)
next
  show "profile_name_of 5 = ''High BMI (Obese) with Diabetes''"
    by (simp add: profile_name_of_def dict_get_def CLUSTER_PROFILE_def)
next
  show "recommendation_type_of 5 = ''Balanced (Low-Calorie) Foods''"
    by (simp add: recommendation_type_of_def dict_get_def CLUSTER_RECOMMENDATION_TYPE_def)
next
  assume "c < 0 \<or> 5 < c"
  then show "profile_name_of c = ''Cluster '' @ str_int c"
    by (simp add: profile_name_of_def dict_get_def profile_outside)
next
  assume "c < 0 \<or> 5 < c"
  then show "recommendation_type_of c = ''Balanced (Low-Calorie) Foods''"
    by (simp add: recommendation_type_of_def dict_get_def rectype_outside)
qed

theorem cluster_policy_total_witness:
  "profile_name_of 3 = ''Low-Activity Diabetic with Very High Blood Sugar'' \<and>
   recommendation_type_of 3 = ''Low-Carb Foods'' \<and>
   profile_name_of (- 12) = ''Cluster -12'' \<and>
   recommendation_type_of (- 12) = ''Balanced (Low-Calorie) Foods'' \<and>
   profile_name_of 6 = ''Cluster 6'' \<and>
   recommendation_type_of 6 = ''Balanced (Low-Calorie) Foods''"
proof -
  have a: "map_of CLUSTER_PROFILE 3 = Some (profile_name_of 3)"
    and b: "map_of CLUSTER_RECOMMENDATION_TYPE 3 = Some (recommendation_type_of 3)"
    using cluster_policy_total [of 3] by simp_all
  have c: "profile_name_of (- 12) = ''Cluster '' @ str_int (- 12)"
    and d: "recommendation_type_of (- 12) = ''Balanced (Low-Calorie) Foods''"
    using cluster_policy_total [of "- 12"] by simp_all
  have e: "profile_name_of 6 = ''Cluster '' @ str_int 6"
    and f: "recommendation_type_of 6 = ''Balanced (Low-Calorie) Foods''"
    using cluster_policy_total [of 6] by simp_all
  have s12: "str_int (- 12) = ''-12''"
    by (simp add: str_int_def digit_char_def)
  have s6: "str_int 6 = ''6''"
    by (simp add: str_int_def digit_char_def)
  from a have a': "profile_name_of 3 = ''Low-Activity Diabetic with Very High Blood Sugar''"
    by (simp add: CLUSTER_PROFILE_def)
  from b have b': "recommendation_type_of 3 = ''Low-Carb Foods''"
    by (simp add: CLUSTER_RECOMMENDATION_TYPE_def)
  from a' b' c d e f s12 s6 show ?thesis by simp
qed

section \<open>The request validator\<close>

lemma age_required: "''Age'' \<in> set REQUIRED_KEYS"
  by (simp add: REQUIRED_KEYS_def)

lemma validate_obj:
  assumes "items \<noteq> []"
  shows "validate_request (JObj items) =
          (if set REQUIRED_KEYS - set (map fst items) \<noteq> {}
           then Inr (False, Some (MissingKeys (sorted_list_of_set (set REQUIRED_KEYS - set (map fst items)))), 400)
           else if set (map fst items) - set REQUIRED_KEYS \<noteq> {}
           then Inr (False, Some (UnexpectedKeys (sorted_list_of_set (set (map fst items) - set REQUIRED_KEYS))), 400)
           else (case check_categorical ALLOWED_VALUES (map_of items) of
             Some r \<Rightarrow> Inr (False, Some r, 400)
           | None \<Rightarrow>
              (case check_numeric numeric_fields (map_of items) of
                 Inl e \<Rightarrow> Inl e
               | Inr (Some r) \<Rightarrow> Inr (False, Some r, 400)
               | Inr None \<Rightarrow> Inr (True, None, 200))))"
proof -
  have t: "truthy (JObj items)" using assms by simp
  show ?thesis
    unfolding validate_request_def Let_def
    by (simp only: t not_True_eq_False if_False json.case simp_thms)
qed

lemma check_categorical_pass:
  "(\<And>key allowed v. (key, allowed) \<in> set av \<Longrightarrow> d key = Some v \<Longrightarrow> json_in v allowed)
   \<Longrightarrow> check_categorical av d = None"
proof (induction av d rule: check_categorical.induct)
  case (1 d)
  then show ?case by simp
next
  case (2 key allowed_list rest d)
  have ok: "\<And>k a v. (k, a) \<in> set rest \<Longrightarrow> d k = Some v \<Longrightarrow> json_in v a"
  proof -
    fix k a v assume "(k, a) \<in> set rest" "d k = Some v"
    then show "json_in v a" using "2.prems" [of k a v] by simp
  qed
  show ?case
  proof (cases "d key")
    case None
    with "2.IH"(1) ok show ?thesis by simp
  next
    case (Some v)
    then have j: "json_in v allowed_list" using "2.prems" [of key allowed_list v] by simp
    with Some "2.IH"(2) ok show ?thesis by simp
  qed
qed

lemma check_numeric_pass:
  "(\<And>f v. f \<in> set fs \<Longrightarrow> d f = Some v \<Longrightarrow> float_raises v = None)
   \<Longrightarrow> check_numeric fs d = Inr None"
proof (induction fs d rule: check_numeric.induct)
  case (1 d)
  then show ?case by simp
next
  case (2 field rest d)
  have ok: "\<And>f v. f \<in> set rest \<Longrightarrow> d f = Some v \<Longrightarrow> float_raises v = None"
  proof -
    fix f v assume "f \<in> set rest" "d f = Some v"
    then show "float_raises v = None" using "2.prems" [of f v] by simp
  qed
  show ?case
  proof (cases "d field")
    case None
    with "2.IH"(1) ok show ?thesis by simp
  next
    case (Some v)
    then have fr: "float_raises v = None" using "2.prems" [of field v] by simp
    with Some "2.IH"(2) ok show ?thesis by simp
  qed
qed

lemma sorted_keys_of_set:
  fixes A :: "string set"
  shows "finite A \<Longrightarrow> sorted (sorted_list_of_set A) \<and> distinct (sorted_list_of_set A) \<and> set (sorted_list_of_set A) = A"
  by simp

text \<open>
  Claim C7. A non-empty record that lacks at least one of the ten required field names
  is rejected with the missing-keys error, and the list it reports holds exactly the
  missing required keys, each once, in increasing order.
\<close>

theorem missing_keys_rejected:
  assumes "items \<noteq> []" and "k \<in> set REQUIRED_KEYS" and "k \<notin> fst ` set items"
  shows "\<exists>ks. validate_request (JObj items) = Inr (False, Some (MissingKeys ks), 400) \<and>
              sorted ks \<and> distinct ks \<and>
              set ks = {r \<in> set REQUIRED_KEYS. r \<notin> fst ` set items}"
proof -
  let ?m = "set REQUIRED_KEYS - set (map fst items)"
  have ne: "?m \<noteq> {}" using assms(2,3) by auto
  have fin: "finite ?m" by simp
  have eq: "?m = {r \<in> set REQUIRED_KEYS. r \<notin> fst ` set items}" by auto
  have v: "validate_request (JObj items) = Inr (False, Some (MissingKeys (sorted_list_of_set ?m)), 400)"
    by (simp only: validate_obj [OF assms(1)] if_P [OF ne])
  from sorted_keys_of_set [OF fin] have "sorted (sorted_list_of_set ?m)"
    and "distinct (sorted_list_of_set ?m)" and "set (sorted_list_of_set ?m) = ?m" by simp_all
  with v eq show ?thesis by metis
qed

theorem missing_keys_rejected_witness:
  "validate_request (JObj [(''Age'', JInt 30), (''Dietary_Habits'', JStr ''Vegan'')]) =
     Inr (False, Some (MissingKeys
        [''Alcohol_Consumption'', ''BMI'', ''Blood_Pressure_Systolic'', ''Blood_Sugar_Level'',
         ''Chronic_Disease'', ''Daily_Steps'', ''Exercise_Frequency'', ''Smoking_Habit'']), 400) \<and>
   sorted [''Alcohol_Consumption'', ''BMI'', ''Blood_Pressure_Systolic'', ''Blood_Sugar_Level'',
         ''Chronic_Disease'', ''Daily_Steps'', ''Exercise_Frequency'', ''Smoking_Habit''] \<and>
   ''BMI'' \<in> set [''Alcohol_Consumption'', ''BMI'', ''Blood_Pressure_Systolic'', ''Blood_Sugar_Level'',
         ''Chronic_Disease'', ''Daily_Steps'', ''Exercise_Frequency'', ''Smoking_Habit''] \<and>
   ''Age'' \<notin> set [''Alcohol_Consumption'', ''BMI'', ''Blood_Pressure_Systolic'', ''Blood_Sugar_Level'',
         ''Chronic_Disease'', ''Daily_Steps'', ''Exercise_Frequency'', ''Smoking_Habit'']"
proof -
  let ?items = "[(''Age'', JInt 30), (''Dietary_Habits'', JStr ''Vegan'')]"
  let ?out = "[''Alcohol_Consumption'', ''BMI'', ''Blood_Pressure_Systolic'', ''Blood_Sugar_Level'',
         ''Chronic_Disease'', ''Daily_Steps'', ''Exercise_Frequency'', ''Smoking_Habit'']"
  have h1: "?items \<noteq> []" by simp
  have h2: "''BMI'' \<in> set REQUIRED_KEYS" by (simp add: REQUIRED_KEYS_def)
  have h3: "''BMI'' \<notin> fst ` set ?items" by simp
  from missing_keys_rejected [OF h1 h2 h3]
  obtain ks where r: "validate_request (JObj ?items) = Inr (False, Some (MissingKeys ks), 400)"
    and s: "sorted ks"
    and e: "set ks = {r \<in> set REQUIRED_KEYS. r \<notin> fst ` set ?items}" by blast
  have "validate_request (JObj ?items) = Inr (False, Some (MissingKeys ?out), 400)"
    by code_simp
  with r have k: "ks = ?out" by simp
  have b: "''BMI'' \<in> set ks" unfolding e using h2 h3 by blast
  have "''Age'' \<in> fst ` set ?items" by simp
  then have a: "''Age'' \<notin> set ks" unfolding e by blast
  from r s a b show ?thesis unfolding k by blast
qed

text \<open>
  Claim C6, as amended. The missing-keys check runs before the extra-keys check. A
  record that holds every required field name and at least one other key is rejected
  with the unexpected-keys error, listing exactly the keys outside the required set,
  each once, in increasing order.
\<close>

theorem unexpected_keys_rejected:
  assumes "set REQUIRED_KEYS \<subseteq> fst ` set items"
    and "k \<in> fst ` set items" and "k \<notin> set REQUIRED_KEYS"
  shows "\<exists>ks. validate_request (JObj items) = Inr (False, Some (UnexpectedKeys ks), 400) \<and>
              sorted ks \<and> distinct ks \<and>
              set ks = {r \<in> fst ` set items. r \<notin> set REQUIRED_KEYS}"
proof -
  let ?m = "set REQUIRED_KEYS - set (map fst items)"
  let ?x = "set (map fst items) - set REQUIRED_KEYS"
  have ne: "items \<noteq> []" using assms(2) by auto
  have m: "\<not> ?m \<noteq> {}" using assms(1) by auto
  have x: "?x \<noteq> {}" using assms(2,3) by auto
  have fin: "finite ?x" by simp
  have eq: "?x = {r \<in> fst ` set items. r \<notin> set REQUIRED_KEYS}" by auto
  have v: "validate_request (JObj items) =
             Inr (False, Some (UnexpectedKeys (sorted_list_of_set ?x)), 400)"
    by (simp only: validate_obj [OF ne] if_not_P [OF m] if_P [OF x])
  from sorted_keys_of_set [OF fin] have "sorted (sorted_list_of_set ?x)"
    and "distinct (sorted_list_of_set ?x)" and "set (sorted_list_of_set ?x) = ?x" by simp_all
  with v eq show ?thesis by metis
qed

theorem unexpected_keys_rejected_witness:
  "validate_request (JObj
     [(''Age'', JInt 41), (''BMI'', JFloat (Fin (53 / 2))), (''Chronic_Disease'', JStr ''None''),
      (''Blood_Pressure_Systolic'', JInt 120), (''Blood_Sugar_Level'', JInt 90),
      (''Daily_Steps'', JInt 5000), (''Exercise_Frequency'', JInt 3),
      (''Alcohol_Consumption'', JStr ''No''), (''Smoking_Habit'', JStr ''No''),
      (''Dietary_Habits'', JStr ''Vegan''), (''Weight'', JInt 70), (''Height'', JInt 180)]) =
   Inr (False, Some (UnexpectedKeys [''Height'', ''Weight'']), 400) \<and>
   sorted [''Height'', ''Weight''] \<and> distinct [''Height'', ''Weight'']"
proof -
  let ?items = "[(''Age'', JInt 41), (''BMI'', JFloat (Fin (53 / 2))), (''Chronic_Disease'', JStr ''None''),
      (''Blood_Pressure_Systolic'', JInt 120), (''Blood_Sugar_Level'', JInt 90),
      (''Daily_Steps'', JInt 5000), (''Exercise_Frequency'', JInt 3),
      (''Alcohol_Consumption'', JStr ''No''), (''Smoking_Habit'', JStr ''No''),
      (''Dietary_Habits'', JStr ''Vegan''), (''Weight'', JInt 70), (''Height'', JInt 180)]"
  have h1: "set REQUIRED_KEYS \<subseteq> fst ` set ?items" by (simp add: REQUIRED_KEYS_def)
  have h2: "''Weight'' \<in> fst ` set ?items" by simp
  have h3: "''Weight'' \<notin> set REQUIRED_KEYS" by (simp add: REQUIRED_KEYS_def)
  from unexpected_keys_rejected [OF h1 h2 h3]
  obtain ks where r: "validate_request (JObj ?items) = Inr (False, Some (UnexpectedKeys ks), 400)"
    and s: "sorted ks" and d: "distinct ks" by blast
  have "validate_request (JObj ?items) = Inr (False, Some (UnexpectedKeys [''Height'', ''Weight'']), 400)"
    by code_simp
  with r have k: "ks = [''Height'', ''Weight'']" by simp
  from r s d show ?thesis unfolding k by blast
qed

text \<open>
  The claim as first stated fails: this record has a key outside the required set and
  lacks the required key "Age"; it is rejected for the missing key, not for the extra one.
\<close>

theorem unexpected_keys_counterexample:
  "validate_request (JObj
     [(''BMI'', JFloat (Fin (53 / 2))), (''Chronic_Disease'', JStr ''None''),
      (''Blood_Pressure_Systolic'', JInt 120), (''Blood_Sugar_Level'', JInt 90),
      (''Daily_Steps'', JInt 5000), (''Exercise_Frequency'', JInt 3),
      (''Alcohol_Consumption'', JStr ''No''), (''Smoking_Habit'', JStr ''No''),
      (''Dietary_Habits'', JStr ''Vegan''), (''Weight'', JInt 70)]) =
   Inr (False, Some (MissingKeys [''Age'']), 400) \<and>
   ''Weight'' \<notin> set REQUIRED_KEYS"
  by code_simp

text \<open>
  Claim C10. The numeric check asks only whether \<^verbatim>\<open>float()\<close> raises. A record with
  exactly the ten required keys and allowed categorical values, one numeric field of
  which is a string that \<^verbatim>\<open>float()\<close> reads as an infinity or as NaN while the other
  numeric fields convert, is accepted.
\<close>

theorem non_finite_numeric_accepted:
  assumes keys: "set (map fst items) = set REQUIRED_KEYS"
    and cats: "\<forall>(key, allowed) \<in> set ALLOWED_VALUES.
                 \<exists>s \<in> set allowed. map_of items key = Some (JStr s)"
    and f0: "f0 \<in> set numeric_fields" "map_of items f0 = Some (JStr s0)"
    and nonfinite: "py_float_str s0 = Some LitInf \<or> py_float_str s0 = Some LitNaN"
    and others: "\<forall>f \<in> set numeric_fields. f \<noteq> f0 \<longrightarrow>
                   (\<exists>v. map_of items f = Some v \<and> float_raises v = None)"
  shows "validate_request (JObj items) = Inr (True, None, 200)"
proof -
  have ne: "items \<noteq> []"
  proof
    assume "items = []"
    with keys age_required show False by simp
  qed
  have m: "\<not> set REQUIRED_KEYS - set (map fst items) \<noteq> {}" using keys by simp
  have x: "\<not> set (map fst items) - set REQUIRED_KEYS \<noteq> {}" using keys by simp
  have c: "check_categorical ALLOWED_VALUES (map_of items) = None"
  proof (rule check_categorical_pass)
    fix key allowed v
    assume "(key, allowed) \<in> set ALLOWED_VALUES" and "map_of items key = Some v"
    with cats show "json_in v allowed" by fastforce
  qed
  have s0: "float_raises (JStr s0) = None" using nonfinite by auto
  have n: "check_numeric numeric_fields (map_of items) = Inr None"
  proof (rule check_numeric_pass)
    fix f v
    assume f: "f \<in> set numeric_fields" and v: "map_of items f = Some v"
    show "float_raises v = None"
    proof (cases "f = f0")
      case True
      with v f0(2) s0 show ?thesis by simp
    next
      case False
      with others f v show ?thesis by fastforce
    qed
  qed
  show ?thesis
    by (simp only: validate_obj [OF ne] if_not_P [OF m] if_not_P [OF x] c n option.case sum.case)
qed

theorem non_finite_numeric_accepted_witness:
  "py_float_str ''nan'' = Some LitNaN \<and> py_float_str ''inf'' = Some LitInf \<and>
   py_float_str ''-inf'' = Some LitInf \<and>
   validate_request (JObj
     [(''Age'', JStr ''nan''), (''BMI'', JStr ''inf''), (''Chronic_Disease'', JStr ''None''),
      (''Blood_Pressure_Systolic'', JStr ''-inf''), (''Blood_Sugar_Level'', JInt 90),
      (''Daily_Steps'', JInt 5000), (''Exercise_Frequency'', JInt 3),
      (''Alcohol_Consumption'', JStr ''No''), (''Smoking_Habit'', JStr ''No''),
      (''Dietary_Habits'', JStr ''Vegan'')]) = Inr (True, None, 200)"
proof -
  let ?items = "[(''Age'', JStr ''nan''), (''BMI'', JStr ''inf''), (''Chronic_Disease'', JStr ''None''),
      (''Blood_Pressure_Systolic'', JStr ''-inf''), (''Blood_Sugar_Level'', JInt 90),
      (''Daily_Steps'', JInt 5000), (''Exercise_Frequency'', JInt 3),
      (''Alcohol_Consumption'', JStr ''No''), (''Smoking_Habit'', JStr ''No''),
      (''Dietary_Habits'', JStr ''Vegan'')]"
  have nan: "py_float_str ''nan'' = Some LitNaN" by code_simp
  have inf: "py_float_str ''inf'' = Some LitInf" by code_simp
  have ninf: "py_float_str ''-inf'' = Some LitInf" by code_simp
  have keys: "set (map fst ?items) = set REQUIRED_KEYS"
    by (simp add: REQUIRED_KEYS_def insert_commute)
  have cats: "\<forall>(key, allowed) \<in> set ALLOWED_VALUES.
                 \<exists>s \<in> set allowed. map_of ?items key = Some (JStr s)"
    by (simp add: ALLOWED_VALUES_def)
  have f0: "''Age'' \<in> set numeric_fields" by (simp add: numeric_fields_def)
  have v0: "map_of ?items ''Age'' = Some (JStr ''nan'')" by simp
  have others: "\<forall>f \<in> set numeric_fields. f \<noteq> ''Age'' \<longrightarrow>
                   (\<exists>v. map_of ?items f = Some v \<and> float_raises v = None)"
    by (simp add: numeric_fields_def inf ninf)
  from non_finite_numeric_accepted [OF keys cats f0 v0 _ others] nan inf ninf
  show ?thesis by simp
qed

section \<open>Rounding\<close>

text \<open>The powers of two by squaring, for evaluation.\<close>

lemma pow2_code [code]:
  "pow2 e = (if e < 0 then 1 / pow2 (- e) else if e = 0 then 1
             else let h = pow2 (e div 2) in if even e then h * h else 2 * h * h)"
proof -
  have pos: "pow2 e = (let h = pow2 (e div 2) in if even e then h * h else 2 * h * h)" if "0 < e" for e
  proof (cases "even e")
    case True
    then obtain k where k: "e = 2 * k" by (auto elim: evenE)
    with that have "0 < k" by simp
    then have "nat (2 * k) = nat k + nat k" by simp
    then show ?thesis using True k \<open>0 < k\<close> by (simp add: pow2_def Let_def power_add)
  next
    case False
    then obtain k where k: "e = 2 * k + 1" by (auto elim: oddE)
    with that have "0 \<le> k" by simp
    then have "nat (2 * k + 1) = Suc (nat k + nat k)" by simp
    then show ?thesis using False k \<open>0 \<le> k\<close> by (simp add: pow2_def Let_def power_add)
  qed
  show ?thesis using pos [of e] by (auto simp: pow2_def)
qed

declare ilog2.simps [simp del]

text \<open>
  The decimals 2.8, 0.4 and 6.6 of the example catalog as floats, and small integers,
  which are floats themselves.
\<close>

lemma round64_decimals:
  "round64 (28 / 10) = Fin (3152519739159347 / 1125899906842624)"
  "round64 (4 / 10) = Fin (3602879701896397 / 9007199254740992)"
  "round64 (66 / 10) = Fin (3715469692580659 / 562949953421312)"
  by code_simp+

lemma round64_integers:
  "round64 0 = Fin 0" "round64 2 = Fin 2" "round64 389 = Fin 389" "round64 660 = Fin 660"
  "round64 1000 = Fin 1000"
  by code_simp+

text \<open>
  The score is not the exact value of the formula: with Protein 0.4, no Fat and 10
  Calories it is the float above \<open>3 / 5\<close> that Python prints as 0.6000000000000001.
\<close>

lemma score_is_rounded:
  "spec_score (round64 (4 / 10)) (Fin 0) (Fin 10) = Fin (1351079888211149 / 2251799813685248)"
  by code_simp

section \<open>The recommendation engine\<close>

subsection \<open>Lists, series and the sort contract\<close>

lemma desc_rank_before: "desc_rank a \<le> desc_rank b \<Longrightarrow> before_desc a b"
  by (cases a; cases b) (auto simp: before_desc_def less_eq_prod_def)

lemma rank_indexer_ok: "sort_values_ok rank_indexer"
proof -
  have "mset (rank_indexer keys) = mset [0..<length keys] \<and>
        sorted_wrt (\<lambda>i j. before_desc (keys ! i) (keys ! j)) (rank_indexer keys)" for keys
  proof
    show "mset (rank_indexer keys) = mset [0..<length keys]"
      by (simp add: rank_indexer_def)
    have "sorted (map (\<lambda>i. desc_rank (keys ! i)) (rank_indexer keys))"
      unfolding rank_indexer_def by (rule sorted_sort_key)
    then have "sorted_wrt (\<lambda>i j. desc_rank (keys ! i) \<le> desc_rank (keys ! j)) (rank_indexer keys)"
      by (simp add: sorted_map)
    then show "sorted_wrt (\<lambda>i j. before_desc (keys ! i) (keys ! j)) (rank_indexer keys)"
      by (rule sorted_wrt_mono_rel [rotated]) (simp add: desc_rank_before)
  qed
  then show ?thesis unfolding sort_values_ok_def by blast
qed

lemma indexer_length: "sort_values_ok ix \<Longrightarrow> length (ix keys) = length keys"
proof -
  assume "sort_values_ok ix"
  then have "mset (ix keys) = mset [0..<length keys]" unfolding sort_values_ok_def by blast
  then have "size (mset (ix keys)) = size (mset [0..<length keys])" by simp
  then show ?thesis by simp
qed

lemma zip_map_self: "map (\<lambda>(r, v). h r v) (zip xs (map g xs)) = map (\<lambda>r. h r (g r)) xs"
  by (induction xs) auto

lemma filter_zip_self: "map fst (filter snd (zip xs (map P xs))) = filter P xs"
  by (induction xs) auto

lemma zip_replicate_self:
  "map (\<lambda>(r, v). h r v) (zip xs (replicate (length xs) c)) = map (\<lambda>r. h r c) xs"
  by (induction xs) auto

lemma collect_err_map:
  "(\<And>x. x \<in> set xs \<Longrightarrow> f x = Inr (g x)) \<Longrightarrow> collect_err (map f xs) = Inr (map g xs)"
  by (induction xs) (simp_all add: bind_err_def)

lemma zip3_map:
  "zip (map a xs) (zip (map b xs) (map c xs)) = map (\<lambda>x. (a x, b x, c x)) xs"
  by (induction xs) auto

text \<open>Item assignment with a series or a scalar computed from the frame's own rows.\<close>

lemma df_setitem_map:
  "df_setitem df col (map g (rows df)) =
     df\<lparr>columns := (if col \<in> set (columns df) then columns df else columns df @ [col]),
        rows := map (\<lambda>r. r(col := g r)) (rows df)\<rparr>"
  by (simp add: df_setitem_def zip_map_self [where h = "\<lambda>r v. r(col := v)"])

lemma df_setitem_scalar_map:
  "df_setitem_scalar df col v =
     df\<lparr>columns := (if col \<in> set (columns df) then columns df else columns df @ [col]),
        rows := map (\<lambda>r. r(col := v)) (rows df)\<rparr>"
  by (simp add: df_setitem_scalar_def df_setitem_def zip_replicate_self [where h = "\<lambda>r v. r(col := v)"])

lemma bind_err_Inr [simp]: "bind_err (Inr x) f = f x"
  by (simp add: bind_err_def)

lemma bind_err_Inl [simp]: "bind_err (Inl e) f = Inl e"
  by (simp add: bind_err_def)

lemma df_filter_column:
  "df_filter df (map (\<lambda>x. P x) (map (\<lambda>r. r col) (rows df))) =
     df\<lparr>rows := filter (\<lambda>r. P (r col)) (rows df)\<rparr>"
proof -
  have "map (\<lambda>x. P x) (map (\<lambda>r. r col) (rows df)) = map (\<lambda>r. P (r col)) (rows df)"
    by simp
  then show ?thesis
    by (simp only: df_filter_def filter_zip_self)
qed

subsection \<open>The heap after each step\<close>

text \<open>What each step allocates and what it overwrites.\<close>

lemma select_candidates_heap:
  assumes fa: "food_df s = Some fa" and live: "fa < length (heap s)"
  shows "select_candidates lib c s =
     (let cat = heap s ! fa; n = length (heap s);
          coerced = cat\<lparr>rows := map (\<lambda>r. r(''Cluster'' := coerce lib (r ''Cluster''))) (rows cat)\<rparr>;
          part = cat\<lparr>rows := cluster_partition lib c cat\<rparr>
      in if ''Cluster'' \<notin> set (columns cat) then Inr (n, s\<lparr>heap := heap s @ [cat]\<rparr>)
         else if cluster_partition lib c cat \<noteq> []
         then Inr (n + 1, s\<lparr>heap := heap s @ [coerced, part]\<rparr>)
         else Inr (n + 2, s\<lparr>heap := heap s @ [coerced, part, cat]\<rparr>))"
proof (cases "''Cluster'' \<in> set (columns (heap s ! fa))")
  case False
  then show ?thesis
    unfolding select_candidates_def
    by (simp add: fa alloc_def deref_def Let_def nth_append)
next
  case True
  let ?cat = "heap s ! fa"
  let ?coerced = "?cat\<lparr>rows := map (\<lambda>r. r(''Cluster'' := coerce lib (r ''Cluster''))) (rows ?cat)\<rparr>"
  let ?s1 = "s\<lparr>heap := heap s @ [?cat]\<rparr>"
  let ?s2 = "s\<lparr>heap := heap s @ [?coerced]\<rparr>"
  let ?w = "length (heap s)"
  have a1: "alloc (deref s fa) s = (?w, ?s1)" by (simp add: alloc_def deref_def)
  have d1: "deref ?s1 ?w = ?cat" by (simp add: deref_def)
  have set1: "df_setitem ?cat ''Cluster'' (to_numeric lib (map (\<lambda>r. r ''Cluster'') (rows ?cat))) = ?coerced"
    using True by (simp add: to_numeric_def df_setitem_map [where g = "\<lambda>r. coerce lib (r ''Cluster'')", simplified] comp_def)
  have m1: "modify ?w (\<lambda>df. bind_err (df_getitem df ''Cluster'') (\<lambda>series.
                   Inr (df_setitem df ''Cluster'' (to_numeric lib series)))) ?s1 = Inr ?s2"
    using True by (simp add: modify_def d1 df_getitem_def set1 store_def)
  have d2: "deref ?s2 ?w = ?coerced" by (simp add: deref_def)
  have g2: "df_getitem ?coerced ''Cluster'' = Inr (map (\<lambda>r. r ''Cluster'') (rows ?coerced))"
    using True by (simp add: df_getitem_def)
  have f2: "df_filter ?coerced (map (\<lambda>x. cell_eq_int x c) (map (\<lambda>r. r ''Cluster'') (rows ?coerced)))
             = ?cat\<lparr>rows := cluster_partition lib c ?cat\<rparr>"
    by (simp only: df_filter_column) (simp add: cluster_partition_def)
  let ?part = "?cat\<lparr>rows := cluster_partition lib c ?cat\<rparr>"
  let ?s3 = "s\<lparr>heap := heap s @ [?coerced, ?part]\<rparr>"
  have a3: "alloc ?part ?s2 = (?w + 1, ?s3)" by (simp add: alloc_def)
  have d3: "deref ?s3 (?w + 1) = ?part" by (simp add: deref_def nth_append)
  have d3': "deref ?s3 fa = ?cat" using live by (simp add: deref_def nth_append)
  have a4: "alloc ?cat ?s3 = (?w + 2, s\<lparr>heap := heap s @ [?coerced, ?part, ?cat]\<rparr>)"
    by (simp add: alloc_def)
  have "select_candidates lib c s =
          (if length (rows ?part) = 0 then Inr (?w + 2, s\<lparr>heap := heap s @ [?coerced, ?part, ?cat]\<rparr>)
           else Inr (?w + 1, ?s3))"
    unfolding select_candidates_def
    by (simp only: fa option.case a1 prod.case d1 True if_True m1 bind_err_Inr d2 g2 f2 a3 d3 d3' a4)
  then show ?thesis using True by (simp add: Let_def)
qed

lemma ensure_numeric_result:
  "distinct cols \<Longrightarrow>
   ensure_numeric lib cols df =
     Inr (df\<lparr>columns := columns df @ filter (\<lambda>c. c \<notin> set (columns df)) cols,
             rows := map (\<lambda>r c. if c \<in> set cols
                                 then (if c \<in> set (columns df) then coerce lib (r c) else Num (Fin 0))
                                 else r c) (rows df)\<rparr>)"
proof (induction cols arbitrary: df)
  case Nil
  then show ?case by simp
next
  case (Cons col cols)
  then have d: "distinct cols" and notin: "col \<notin> set cols" by simp_all
  have flt: "filter (\<lambda>c. c \<noteq> col \<and> c \<notin> set (columns df)) cols = filter (\<lambda>c. c \<notin> set (columns df)) cols"
    using notin by (intro filter_cong) auto
  show ?case
  proof (cases "col \<in> set (columns df)")
    case True
    let ?df1 = "df\<lparr>rows := map (\<lambda>r. r(col := coerce lib (r col))) (rows df)\<rparr>"
    have s1: "df_setitem df col (to_numeric lib (map (\<lambda>r. r col) (rows df))) = ?df1"
      using True by (simp add: to_numeric_def df_setitem_map [where g = "\<lambda>r. coerce lib (r col)", simplified] comp_def)
    have "ensure_numeric lib (col # cols) df = ensure_numeric lib cols ?df1"
      using True by (simp add: df_getitem_def s1)
    also have "\<dots> = Inr (?df1\<lparr>columns := columns ?df1 @ filter (\<lambda>c. c \<notin> set (columns ?df1)) cols,
             rows := map (\<lambda>r c. if c \<in> set cols
                                 then (if c \<in> set (columns ?df1) then coerce lib (r c) else Num (Fin 0))
                                 else r c) (rows ?df1)\<rparr>)"
      by (rule Cons.IH [OF d])
    also have "\<dots> = Inr (df\<lparr>columns := columns df @ filter (\<lambda>c. c \<notin> set (columns df)) (col # cols),
             rows := map (\<lambda>r c. if c \<in> set (col # cols)
                                 then (if c \<in> set (columns df) then coerce lib (r c) else Num (Fin 0))
                                 else r c) (rows df)\<rparr>)"
      using True notin by (auto simp: fun_eq_iff)
    finally show ?thesis .
  next
    case False
    let ?df1 = "df\<lparr>columns := columns df @ [col], rows := map (\<lambda>r. r(col := Num (Fin 0))) (rows df)\<rparr>"
    have s1: "df_setitem_scalar df col (Num (Fin 0)) = ?df1"
      using False by (simp add: df_setitem_scalar_map)
    have "ensure_numeric lib (col # cols) df = ensure_numeric lib cols ?df1"
      using False by (simp add: s1)
    also have "\<dots> = Inr (?df1\<lparr>columns := columns ?df1 @ filter (\<lambda>c. c \<notin> set (columns ?df1)) cols,
             rows := map (\<lambda>r c. if c \<in> set cols
                                 then (if c \<in> set (columns ?df1) then coerce lib (r c) else Num (Fin 0))
                                 else r c) (rows ?df1)\<rparr>)"
      by (rule Cons.IH [OF d])
    also have "\<dots> = Inr (df\<lparr>columns := columns df @ filter (\<lambda>c. c \<notin> set (columns df)) (col # cols),
             rows := map (\<lambda>r c. if c \<in> set (col # cols)
                                 then (if c \<in> set (columns df) then coerce lib (r c) else Num (Fin 0))
                                 else r c) (rows df)\<rparr>)"
      using False notin flt by (auto simp: fun_eq_iff)
    finally show ?thesis .
  qed
qed

lemma value_or_zero_present:
  "c \<in> set (columns df) \<Longrightarrow> fillna0_cell (coerce lib (r c)) = Num (value_or_zero lib df r c)"
  by (cases "r c") (auto simp: value_or_zero_def split: option.splits)

lemma value_or_zero_absent:
  "c \<notin> set (columns df) \<Longrightarrow> value_or_zero lib df r c = Fin 0"
  by (simp add: value_or_zero_def)

lemma nutrients_ready:
  "bind_err (ensure_numeric lib [''Protein'', ''Fat'', ''Calories''] df)
            (\<lambda>d. df_fillna_cols d [''Protein'', ''Fat'', ''Calories'']) =
   Inr (df\<lparr>columns := columns df @ filter (\<lambda>c. c \<notin> set (columns df)) [''Protein'', ''Fat'', ''Calories''],
           rows := map (\<lambda>r c. if c \<in> set [''Protein'', ''Fat'', ''Calories'']
                               then Num (value_or_zero lib df r c) else r c) (rows df)\<rparr>)"
proof -
  let ?n = "[''Protein'', ''Fat'', ''Calories'']"
  have dist: "distinct ?n" by simp
  let ?d = "df\<lparr>columns := columns df @ filter (\<lambda>c. c \<notin> set (columns df)) ?n,
             rows := map (\<lambda>r c. if c \<in> set ?n
                                 then (if c \<in> set (columns df) then coerce lib (r c) else Num (Fin 0))
                                 else r c) (rows df)\<rparr>"
  have sub: "set ?n \<subseteq> set (columns ?d)" by auto
  have rws: "map (\<lambda>r c. if c \<in> set ?n then fillna0_cell (r c) else r c) (rows ?d) =
             map (\<lambda>r c. if c \<in> set ?n then Num (value_or_zero lib df r c) else r c) (rows df)"
    by (auto simp: fun_eq_iff value_or_zero_present value_or_zero_absent)
  have "df_fillna_cols ?d ?n = Inr (?d\<lparr>rows := map (\<lambda>r c. if c \<in> set ?n then fillna0_cell (r c) else r c) (rows ?d)\<rparr>)"
    unfolding df_fillna_cols_def using sub by (simp only: if_True)
  also have "\<dots> = Inr (df\<lparr>columns := columns df @ filter (\<lambda>c. c \<notin> set (columns df)) ?n,
           rows := map (\<lambda>r c. if c \<in> set ?n then Num (value_or_zero lib df r c) else r c) (rows df)\<rparr>)"
    by (simp only: rws) simp
  finally show ?thesis
    by (simp only: ensure_numeric_result [OF dist] bind_err_Inr)
qed

lemma add_score_ready:
  assumes cols: "set [''Protein'', ''Fat'', ''Calories''] \<subseteq> set (columns d)"
    and nums: "\<And>r. r \<in> set (rows d) \<Longrightarrow>
                 r ''Protein'' = Num (p r) \<and> r ''Fat'' = Num (f r) \<and> r ''Calories'' = Num (c r)"
  shows "add_score d =
     Inr (d\<lparr>columns := (if ''score'' \<in> set (columns d) then columns d else columns d @ [''score'']),
             rows := map (\<lambda>r. r(''score'' := Num (spec_score (p r) (f r) (c r)))) (rows d)\<rparr>)"
proof -
  have g: "df_getitem d ''Protein'' = Inr (map (\<lambda>r. r ''Protein'') (rows d))"
    "df_getitem d ''Fat'' = Inr (map (\<lambda>r. r ''Fat'') (rows d))"
    "df_getitem d ''Calories'' = Inr (map (\<lambda>r. r ''Calories'') (rows d))"
    using cols by (simp_all add: df_getitem_def)
  have col: "collect_err (map (\<lambda>(p, f, c). score_cell p f c)
               (map (\<lambda>r. (r ''Protein'', r ''Fat'', r ''Calories'')) (rows d))) =
             Inr (map (\<lambda>r. Num (spec_score (p r) (f r) (c r))) (rows d))"
  proof -
    have "collect_err (map (\<lambda>r. score_cell (r ''Protein'') (r ''Fat'') (r ''Calories'')) (rows d)) =
          Inr (map (\<lambda>r. Num (spec_score (p r) (f r) (c r))) (rows d))"
      by (rule collect_err_map) (simp add: nums spec_score_def)
    then show ?thesis by (simp add: comp_def)
  qed
  show ?thesis
    unfolding add_score_def
    by (simp only: g bind_err_Inr zip3_map col df_setitem_map)
qed

lemma deref_store:
  "a < length (heap s) \<Longrightarrow> deref (store a d s) a = d"
  by (simp add: deref_def store_def)

lemma store_store: "store a d (store a d' s) = store a d s"
  by (simp add: store_def)

lemma score_frame:
  "\<exists>d1 d2.
     ensure_numeric lib [''Protein'', ''Fat'', ''Calories''] df = Inr d1 \<and>
     df_fillna_cols d1 [''Protein'', ''Fat'', ''Calories''] = Inr d2 \<and>
     add_score d2 =
       Inr (df\<lparr>columns :=
                 (let cs = columns df @ filter (\<lambda>c. c \<notin> set (columns df)) [''Protein'', ''Fat'', ''Calories'']
                  in if ''score'' \<in> set cs then cs else cs @ [''score'']),
               rows := map (scored_row lib df) (rows df)\<rparr>)"
proof -
  let ?n = "[''Protein'', ''Fat'', ''Calories'']"
  let ?cs = "columns df @ filter (\<lambda>c. c \<notin> set (columns df)) ?n"
  let ?G = "\<lambda>r c. if c \<in> set ?n then Num (value_or_zero lib df r c) else r c"
  let ?d2 = "df\<lparr>columns := ?cs, rows := map ?G (rows df)\<rparr>"
  let ?pf = "\<lambda>x. case x of Num v \<Rightarrow> v | Str t \<Rightarrow> NaN"
  have dist: "distinct ?n" by simp
  obtain d1 where e: "ensure_numeric lib ?n df = Inr d1"
    using ensure_numeric_result [OF dist] by blast
  have fl: "df_fillna_cols d1 ?n = Inr ?d2"
    using nutrients_ready [of lib df] by (simp only: e bind_err_Inr)
  have cols: "set ?n \<subseteq> set (columns ?d2)" by auto
  have nums: "r \<in> set (rows ?d2) \<Longrightarrow>
                 r ''Protein'' = Num (?pf (r ''Protein'')) \<and> r ''Fat'' = Num (?pf (r ''Fat'')) \<and>
                 r ''Calories'' = Num (?pf (r ''Calories''))" for r
    by auto
  have rws: "map (\<lambda>r. r(''score'' := Num (spec_score (?pf (r ''Protein'')) (?pf (r ''Fat'')) (?pf (r ''Calories'')))))
                (rows ?d2) = map (scored_row lib df) (rows df)"
    by (auto simp: fun_eq_iff scored_row_def)
  have "add_score ?d2 =
     Inr (?d2\<lparr>columns := (if ''score'' \<in> set (columns ?d2) then columns ?d2 else columns ?d2 @ [''score'']),
             rows := map (\<lambda>r. r(''score'' := Num (spec_score (?pf (r ''Protein'')) (?pf (r ''Fat'')) (?pf (r ''Calories''))))) (rows ?d2)\<rparr>)"
    by (rule add_score_ready [OF cols nums])
  also have "\<dots> = Inr (df\<lparr>columns := (let cs = ?cs in if ''score'' \<in> set cs then cs else cs @ [''score'']),
               rows := map (scored_row lib df) (rows df)\<rparr>)"
    by (simp only: rws) (simp add: Let_def)
  finally show ?thesis using e fl by blast
qed

lemma score_candidates_heap:
  assumes live: "w < length (heap s)"
  shows "score_candidates lib w s =
     Inr (store w ((heap s ! w)\<lparr>columns :=
                 (let cs = columns (heap s ! w) @
                           filter (\<lambda>c. c \<notin> set (columns (heap s ! w))) [''Protein'', ''Fat'', ''Calories'']
                  in if ''score'' \<in> set cs then cs else cs @ [''score'']),
               rows := map (scored_row lib (heap s ! w)) (rows (heap s ! w))\<rparr>) s)"
proof -
  from score_frame [of lib "heap s ! w"] obtain d1 d2 where
    e: "ensure_numeric lib [''Protein'', ''Fat'', ''Calories''] (deref s w) = Inr d1" and
    f: "df_fillna_cols d1 [''Protein'', ''Fat'', ''Calories''] = Inr d2" and
    a: "add_score d2 = Inr ((heap s ! w)\<lparr>columns :=
                 (let cs = columns (heap s ! w) @
                           filter (\<lambda>c. c \<notin> set (columns (heap s ! w))) [''Protein'', ''Fat'', ''Calories'']
                  in if ''score'' \<in> set cs then cs else cs @ [''score'']),
               rows := map (scored_row lib (heap s ! w)) (rows (heap s ! w))\<rparr>)"
    unfolding deref_def by blast
  have m1: "modify w (ensure_numeric lib [''Protein'', ''Fat'', ''Calories'']) s = Inr (store w d1 s)"
    using e by (simp add: modify_def)
  have d1: "deref (store w d1 s) w = d1" by (rule deref_store [OF live])
  have m2: "modify w (\<lambda>df. df_fillna_cols df [''Protein'', ''Fat'', ''Calories'']) (store w d1 s) =
              Inr (store w d2 s)"
    by (simp add: modify_def d1 f store_store)
  have d2: "deref (store w d2 s) w = d2" by (rule deref_store [OF live])
  have m3: "modify w add_score (store w d2 s) =
     Inr (store w ((heap s ! w)\<lparr>columns :=
                 (let cs = columns (heap s ! w) @
                           filter (\<lambda>c. c \<notin> set (columns (heap s ! w))) [''Protein'', ''Fat'', ''Calories'']
                  in if ''score'' \<in> set cs then cs else cs @ [''score'']),
               rows := map (scored_row lib (heap s ! w)) (rows (heap s ! w))\<rparr>) s)"
    by (simp only: modify_def d2 a bind_err_Inr store_store)
  show ?thesis
    unfolding score_candidates_def
    by (simp only: m1 m2 m3 bind_err_Inr)
qed

lemma sort_values_desc_score:
  assumes col: "key_col \<in> set (columns df)"
    and nums: "\<And>r. r \<in> set (rows df) \<Longrightarrow> r key_col = Num (k r)"
  shows "sort_values_desc lib key_col df =
           Inr (df\<lparr>rows := map (\<lambda>i. rows df ! i) (sort_indexer lib (map k (rows df)))\<rparr>)"
proof -
  have g: "df_getitem df key_col = Inr (map (\<lambda>r. r key_col) (rows df))"
    using col by (simp add: df_getitem_def)
  have c: "collect_err (map cell_float (map (\<lambda>r. r key_col) (rows df))) = Inr (map k (rows df))"
  proof -
    have "collect_err (map (\<lambda>r. cell_float (r key_col)) (rows df)) = Inr (map k (rows df))"
      by (rule collect_err_map) (simp add: nums)
    then show ?thesis by (simp add: comp_def)
  qed
  show ?thesis
    unfolding sort_values_desc_def by (simp only: g c bind_err_Inr)
qed

lemma top_ten_heap:
  assumes col: "''score'' \<in> set (columns (heap s ! w))"
    and nums: "\<forall>r \<in> set (rows (heap s ! w)). r ''score'' = Num (k r)"
  shows "top_ten lib w s =
     Inr (length (heap s) + 1,
          s\<lparr>heap := heap s @
             [(heap s ! w)\<lparr>rows := map (\<lambda>i. rows (heap s ! w) ! i)
                                       (sort_indexer lib (map k (rows (heap s ! w))))\<rparr>,
              (heap s ! w)\<lparr>rows := take 10 (map (\<lambda>i. rows (heap s ! w) ! i)
                                       (sort_indexer lib (map k (rows (heap s ! w)))))\<rparr>]\<rparr>)"
proof -
  have sv: "sort_values_desc lib ''score'' (deref s w) =
           Inr ((heap s ! w)\<lparr>rows := map (\<lambda>i. rows (heap s ! w) ! i)
                                       (sort_indexer lib (map k (rows (heap s ! w))))\<rparr>)"
    unfolding deref_def
    using sort_values_desc_score [of "''score''" "heap s ! w" k lib] col nums by blast
  show ?thesis
    unfolding top_ten_def
    by (simp only: sv bind_err_Inr) (simp add: alloc_def deref_def df_head_def)
qed

lemma df_setitem_length:
  "length vals = length (rows df) \<Longrightarrow> length (rows (df_setitem df col vals)) = length (rows df)"
  by (simp add: df_setitem_def)

lemma df_setitem_columns:
  "set (columns (df_setitem df col vals)) = insert col (set (columns df))"
  by (auto simp: df_setitem_def)

lemma ensure_fields_props:
  "set (columns (ensure_fields fs df)) = set (columns df) \<union> set fs \<and>
   length (rows (ensure_fields fs df)) = length (rows df)"
proof (induction fs arbitrary: df)
  case Nil
  then show ?case by simp
next
  case (Cons f fs)
  show ?case
    by (simp add: Cons.IH df_setitem_scalar_def df_setitem_length df_setitem_columns) blast
qed

lemma final_cleanup_props:
  "\<exists>d. final_cleanup lib fs df = Inr d \<and> columns d = columns df \<and>
        length (rows d) = length (rows df)"
proof (induction fs arbitrary: df)
  case Nil
  then show ?case by simp
next
  case (Cons f fs)
  show ?case
  proof (cases "f \<in> set (columns df)")
    case True
    let ?d1 = "df_setitem df f (fillna0 (to_numeric lib (map (\<lambda>r. r f) (rows df))))"
    have c1: "columns ?d1 = columns df" using True by (simp add: df_setitem_def)
    have l1: "length (rows ?d1) = length (rows df)"
      by (simp add: df_setitem_length fillna0_def to_numeric_def)
    from Cons.IH [of ?d1] obtain d where "final_cleanup lib fs ?d1 = Inr d"
      and "columns d = columns ?d1" and "length (rows d) = length (rows ?d1)" by blast
    with c1 l1 True show ?thesis by (simp add: df_getitem_def)
  next
    case False
    with Cons.IH [of df] show ?thesis by simp
  qed
qed

lemma df_setitem_other:
  assumes len: "length vals = length (rows df)" and ne: "c \<noteq> col"
  shows "map (\<lambda>x. x c) (rows (df_setitem df col vals)) = map (\<lambda>x. x c) (rows df)"
proof -
  have "map (\<lambda>x. x c) (map (\<lambda>(r, v). r(col := v)) (zip (rows df) vals)) =
        map (\<lambda>x. x c) (map fst (zip (rows df) vals))"
    using ne by (simp add: case_prod_beta)
  also have "\<dots> = map (\<lambda>x. x c) (rows df)"
    using len by (simp only: map_fst_zip)
  finally show ?thesis by (simp add: df_setitem_def)
qed

lemma ensure_fields_keeps:
  "c \<in> set (columns df) \<Longrightarrow>
   map (\<lambda>x. x c) (rows (ensure_fields fs df)) = map (\<lambda>x. x c) (rows df)"
proof (induction fs arbitrary: df)
  case Nil
  then show ?case by simp
next
  case (Cons f fs)
  show ?case
  proof (cases "f \<in> set (columns df)")
    case True
    with Cons show ?thesis by simp
  next
    case False
    with Cons.prems have ne: "c \<noteq> f" by auto
    let ?v = "if f \<in> set [''Protein'', ''Fat'', ''Carbs'', ''Calories''] then Num (Fin 0) else Str []"
    let ?d1 = "df_setitem_scalar df f ?v"
    have in1: "c \<in> set (columns ?d1)"
      using Cons.prems by (simp add: df_setitem_scalar_def df_setitem_columns)
    have k1: "map (\<lambda>x. x c) (rows ?d1) = map (\<lambda>x. x c) (rows df)"
      using ne by (simp add: df_setitem_scalar_def df_setitem_other)
    have "ensure_fields (f # fs) df = ensure_fields fs ?d1"
      using False by simp
    with Cons.IH [OF in1] k1 show ?thesis by simp
  qed
qed

lemma final_cleanup_keeps:
  "c \<notin> set fs \<Longrightarrow> final_cleanup lib fs df = Inr d \<Longrightarrow>
   map (\<lambda>x. x c) (rows d) = map (\<lambda>x. x c) (rows df)"
proof (induction fs arbitrary: df)
  case Nil
  then show ?case by simp
next
  case (Cons f fs)
  then have ne: "c \<noteq> f" and nin: "c \<notin> set fs" by auto
  show ?case
  proof (cases "f \<in> set (columns df)")
    case True
    let ?d1 = "df_setitem df f (fillna0 (to_numeric lib (map (\<lambda>r. r f) (rows df))))"
    have k1: "map (\<lambda>x. x c) (rows ?d1) = map (\<lambda>x. x c) (rows df)"
      using ne by (simp add: df_setitem_other fillna0_def to_numeric_def)
    from Cons.prems(2) True have "final_cleanup lib fs ?d1 = Inr d"
      by (simp add: df_getitem_def)
    from Cons.IH [OF nin this] k1 show ?thesis by simp
  next
    case False
    with Cons.prems(2) have "final_cleanup lib fs df = Inr d" by simp
    from Cons.IH [OF nin this] show ?thesis .
  qed
qed

lemma clean_number_fixed: "clean_number x \<Longrightarrow> fillna0_cell (coerce lib x) = x"
  by (cases x) auto

lemma df_setitem_same:
  assumes len: "length vals = length (rows df)"
  shows "map (\<lambda>x. x c) (rows (df_setitem df c vals)) = vals"
proof -
  have "map (\<lambda>x. x c) (map (\<lambda>(r, v). r(c := v)) (zip (rows df) vals)) =
        map snd (zip (rows df) vals)"
    by (simp add: case_prod_beta)
  also have "\<dots> = vals" using len by (simp only: map_snd_zip)
  finally show ?thesis by (simp add: df_setitem_def)
qed

lemma recleaned_column:
  assumes cl: "list_all clean_number (map (\<lambda>x. x c) (rows df))"
  shows "map (\<lambda>x. x c) (rows (df_setitem df f (fillna0 (to_numeric lib (map (\<lambda>r. r f) (rows df)))))) =
         map (\<lambda>x. x c) (rows df)"
proof (cases "c = f")
  case True
  have "fillna0 (to_numeric lib (map (\<lambda>r. r c) (rows df))) = map (\<lambda>x. x c) (rows df)"
    using cl by (simp add: fillna0_def to_numeric_def list_all_iff clean_number_fixed)
  moreover have "length (fillna0 (to_numeric lib (map (\<lambda>r. r c) (rows df)))) = length (rows df)"
    by (simp add: fillna0_def to_numeric_def)
  ultimately show ?thesis using True df_setitem_same [of _ df c] by simp
next
  case False
  then show ?thesis by (simp add: df_setitem_other fillna0_def to_numeric_def)
qed

lemma final_cleanup_column:
  "final_cleanup lib fs df = Inr d \<Longrightarrow> list_all clean_number (map (\<lambda>x. x c) (rows df)) \<Longrightarrow>
   map (\<lambda>x. x c) (rows d) = map (\<lambda>x. x c) (rows df)"
proof (induction fs arbitrary: df)
  case Nil
  then show ?case by simp
next
  case (Cons f fs)
  show ?case
  proof (cases "f \<in> set (columns df)")
    case True
    let ?d1 = "df_setitem df f (fillna0 (to_numeric lib (map (\<lambda>r. r f) (rows df))))"
    have k1: "map (\<lambda>x. x c) (rows ?d1) = map (\<lambda>x. x c) (rows df)"
      by (rule recleaned_column [OF Cons.prems(2)])
    then have cl1: "list_all clean_number (map (\<lambda>x. x c) (rows ?d1))"
      using Cons.prems(2) by simp
    from Cons.prems(1) True have "final_cleanup lib fs ?d1 = Inr d"
      by (simp add: df_getitem_def)
    from Cons.IH [OF this cl1] k1 show ?thesis by simp
  next
    case False
    with Cons.prems(1) have "final_cleanup lib fs df = Inr d" by simp
    from Cons.IH [OF this Cons.prems(2)] show ?thesis .
  qed
qed

lemma project_fields_heap:
  assumes live: "r < length (heap s)"
  shows "\<exists>d2 sel out.
     project_fields lib r s =
       Inr (length (heap s) + 1, s\<lparr>heap := (heap s)[r := d2] @ [sel, out]\<rparr>) \<and>
     columns out = required_fields \<and>
     length (rows out) = length (rows (heap s ! r)) \<and>
     (\<forall>c. c \<in> set (columns (heap s ! r)) \<and> c \<notin> set [''Protein'', ''Fat'', ''Carbs'', ''Calories'']
          \<longrightarrow> map (\<lambda>x. x c) (rows out) = map (\<lambda>x. x c) (rows (heap s ! r))) \<and>
     (\<forall>c. c \<in> set (columns (heap s ! r)) \<and>
          list_all clean_number (map (\<lambda>x. x c) (rows (heap s ! r)))
          \<longrightarrow> map (\<lambda>x. x c) (rows out) = map (\<lambda>x. x c) (rows (heap s ! r)))"
proof -
  let ?df = "heap s ! r"
  let ?d1 = "ensure_fields required_fields ?df"
  have p1: "set (columns ?d1) = set (columns ?df) \<union> set required_fields"
    and l1: "length (rows ?d1) = length (rows ?df)"
    using ensure_fields_props [of required_fields ?df] by simp_all
  have m1: "modify r (\<lambda>df. Inr (ensure_fields required_fields df)) s = Inr (store r ?d1 s)"
    by (simp add: modify_def deref_def)
  have e1: "deref (store r ?d1 s) r = ?d1" by (rule deref_store [OF live])
  have carbs: "''Carbs'' \<in> set (columns ?d1)" using p1 by (simp add: required_fields_def)
  let ?d2 = "df_setitem ?d1 ''Carbs'' (fillna0 (to_numeric lib (map (\<lambda>r. r ''Carbs'') (rows ?d1))))"
  have c2: "columns ?d2 = columns ?d1" using carbs by (simp add: df_setitem_def)
  have l2: "length (rows ?d2) = length (rows ?df)"
    by (simp add: df_setitem_length fillna0_def to_numeric_def l1)
  have m2: "modify r (\<lambda>df.
         if ''Carbs'' \<in> set (columns df)
         then bind_err (df_getitem df ''Carbs'') (\<lambda>series.
              Inr (df_setitem df ''Carbs'' (fillna0 (to_numeric lib series))))
         else Inr df) (store r ?d1 s) = Inr (store r ?d2 s)"
    using carbs by (simp add: modify_def e1 df_getitem_def store_store)
  have e2: "deref (store r ?d2 s) r = ?d2" by (rule deref_store [OF live])
  let ?sel = "?d2\<lparr>columns := required_fields\<rparr>"
  have sl: "df_select ?d2 required_fields = Inr ?sel"
    using p1 c2 by (simp add: df_select_def)
  let ?s3 = "s\<lparr>heap := (heap s)[r := ?d2] @ [?sel]\<rparr>"
  let ?s4 = "s\<lparr>heap := (heap s)[r := ?d2] @ [?sel, ?sel]\<rparr>"
  have a3: "alloc ?sel (store r ?d2 s) = (length (heap s), ?s3)"
    by (simp add: alloc_def store_def)
  have a4: "alloc (deref ?s3 (length (heap s))) ?s3 = (length (heap s) + 1, ?s4)"
    by (simp add: alloc_def deref_def nth_append)
  have e4: "deref ?s4 (length (heap s) + 1) = ?sel"
    by (simp add: deref_def nth_append)
  from final_cleanup_props [of lib "[''Protein'', ''Fat'', ''Carbs'', ''Calories'']" ?sel]
  obtain out where fc: "final_cleanup lib [''Protein'', ''Fat'', ''Carbs'', ''Calories''] ?sel = Inr out"
    and co: "columns out = columns ?sel" and lo: "length (rows out) = length (rows ?sel)" by blast
  have m5: "modify (length (heap s) + 1) (final_cleanup lib [''Protein'', ''Fat'', ''Carbs'', ''Calories'']) ?s4
            = Inr (s\<lparr>heap := (heap s)[r := ?d2] @ [?sel, out]\<rparr>)"
    by (simp only: modify_def e4 fc bind_err_Inr) (simp add: store_def list_update_append)
  have "project_fields lib r s =
       Inr (length (heap s) + 1, s\<lparr>heap := (heap s)[r := ?d2] @ [?sel, out]\<rparr>)"
    unfolding project_fields_def
    by (simp only: m1 bind_err_Inr m2 e2 sl a3 prod.case a4 m5)
  moreover have "columns out = required_fields" using co by simp
  moreover have "length (rows out) = length (rows ?df)" using lo l2 by simp
  moreover have "\<forall>c. c \<in> set (columns ?df) \<and> c \<notin> set [''Protein'', ''Fat'', ''Carbs'', ''Calories'']
          \<longrightarrow> map (\<lambda>x. x c) (rows out) = map (\<lambda>x. x c) (rows ?df)"
  proof (intro allI impI)
    fix c
    assume c: "c \<in> set (columns ?df) \<and> c \<notin> set [''Protein'', ''Fat'', ''Carbs'', ''Calories'']"
    then have k1: "map (\<lambda>x. x c) (rows ?d1) = map (\<lambda>x. x c) (rows ?df)"
      by (simp add: ensure_fields_keeps)
    from c have "c \<noteq> ''Carbs''" by auto
    then have k2: "map (\<lambda>x. x c) (rows ?d2) = map (\<lambda>x. x c) (rows ?d1)"
      by (simp add: df_setitem_other fillna0_def to_numeric_def)
    from c have "c \<notin> set [''Protein'', ''Fat'', ''Carbs'', ''Calories'']" by simp
    from final_cleanup_keeps [OF this fc]
    have "map (\<lambda>x. x c) (rows out) = map (\<lambda>x. x c) (rows ?sel)" by simp
    with k1 k2 show "map (\<lambda>x. x c) (rows out) = map (\<lambda>x. x c) (rows ?df)" by simp
  qed
  moreover have "\<forall>c. c \<in> set (columns ?df) \<and> list_all clean_number (map (\<lambda>x. x c) (rows ?df))
          \<longrightarrow> map (\<lambda>x. x c) (rows out) = map (\<lambda>x. x c) (rows ?df)"
  proof (intro allI impI)
    fix c
    assume c: "c \<in> set (columns ?df) \<and> list_all clean_number (map (\<lambda>x. x c) (rows ?df))"
    then have k1: "map (\<lambda>x. x c) (rows ?d1) = map (\<lambda>x. x c) (rows ?df)"
      by (simp add: ensure_fields_keeps)
    with c have cl1: "list_all clean_number (map (\<lambda>x. x c) (rows ?d1))" by simp
    have k2: "map (\<lambda>x. x c) (rows ?d2) = map (\<lambda>x. x c) (rows ?d1)"
      by (rule recleaned_column [OF cl1])
    with cl1 have "list_all clean_number (map (\<lambda>x. x c) (rows ?d2))" by simp
    then have cl2: "list_all clean_number (map (\<lambda>x. x c) (rows ?sel))" by simp
    from final_cleanup_column [OF fc cl2]
    have "map (\<lambda>x. x c) (rows out) = map (\<lambda>x. x c) (rows ?d2)" by simp
    with k1 k2 show "map (\<lambda>x. x c) (rows out) = map (\<lambda>x. x c) (rows ?df)" by simp
  qed
  ultimately show ?thesis by blast
qed

lemma select_candidates_summary:
  assumes fa: "food_df s = Some fa" and live: "fa < length (heap s)"
  shows "\<exists>w s1. select_candidates lib c s = Inr (w, s1) \<and>
           w < length (heap s1) \<and> length (heap s) \<le> w \<and>
           take (length (heap s)) (heap s1) = heap s \<and> food_df s1 = food_df s \<and>
           columns (heap s1 ! w) = columns (heap s ! fa) \<and>
           rows (heap s1 ! w) =
             (if ''Cluster'' \<in> set (columns (heap s ! fa)) \<and> cluster_partition lib c (heap s ! fa) \<noteq> []
              then cluster_partition lib c (heap s ! fa) else rows (heap s ! fa))"
proof -
  consider (a) "''Cluster'' \<notin> set (columns (heap s ! fa))"
    | (b) "''Cluster'' \<in> set (columns (heap s ! fa))" "cluster_partition lib c (heap s ! fa) \<noteq> []"
    | (c) "''Cluster'' \<in> set (columns (heap s ! fa))" "cluster_partition lib c (heap s ! fa) = []"
    by blast
  then show ?thesis
  proof cases
    case a
    then have "select_candidates lib c s = Inr (length (heap s), s\<lparr>heap := heap s @ [heap s ! fa]\<rparr>)"
      by (simp add: select_candidates_heap [OF fa live] Let_def)
    then show ?thesis using a by (simp add: nth_append)
  next
    case b
    then have "select_candidates lib c s =
      Inr (length (heap s) + 1, s\<lparr>heap := heap s @
         [(heap s ! fa)\<lparr>rows := map (\<lambda>r. r(''Cluster'' := coerce lib (r ''Cluster''))) (rows (heap s ! fa))\<rparr>,
          (heap s ! fa)\<lparr>rows := cluster_partition lib c (heap s ! fa)\<rparr>]\<rparr>)"
      by (simp add: select_candidates_heap [OF fa live] Let_def)
    then show ?thesis using b by (simp add: nth_append)
  next
    case c
    then have "select_candidates lib c s =
      Inr (length (heap s) + 2, s\<lparr>heap := heap s @
         [(heap s ! fa)\<lparr>rows := map (\<lambda>r. r(''Cluster'' := coerce lib (r ''Cluster''))) (rows (heap s ! fa))\<rparr>,
          (heap s ! fa)\<lparr>rows := cluster_partition lib c (heap s ! fa)\<rparr>, heap s ! fa]\<rparr>)"
      by (simp add: select_candidates_heap [OF fa live] Let_def)
    then show ?thesis using c by (simp add: nth_append)
  qed
qed

lemma scored_row_score:
  "scored_row lib df r ''score'' =
     Num (spec_score (value_or_zero lib df r ''Protein'') (value_or_zero lib df r ''Fat'')
                     (value_or_zero lib df r ''Calories''))"
  by (simp add: scored_row_def)

text \<open>The whole run on a state whose catalog is loaded.\<close>

lemma engine_run:
  assumes fa: "food_df s = Some fa" and live: "fa < length (heap s)"
  shows "\<exists>w s1 keys r' s'.
     select_candidates lib c s = Inr (w, s1) \<and>
     get_cluster_recommendations lib c s =
       Inr ((profile_name_of c, recommendation_type_of c, r'), s') \<and>
     food_df s' = food_df s \<and> take (length (heap s)) (heap s') = heap s \<and>
     r' < length (heap s') \<and> columns (heap s' ! r') = required_fields \<and>
     length keys = length (rows (heap s1 ! w)) \<and>
     length (rows (heap s' ! r')) = min 10 (length (sort_indexer lib keys)) \<and>
     keys = map (\<lambda>x. cell_number (scored_row lib (heap s1 ! w) x ''score'')) (rows (heap s1 ! w)) \<and>
     (\<forall>c \<in> set [''Protein'', ''Fat'', ''Calories''].
        list_all clean_number
          (map (\<lambda>x. x c)
            (take 10 (map (\<lambda>i. map (scored_row lib (heap s1 ! w)) (rows (heap s1 ! w)) ! i)
                          (sort_indexer lib keys)))) \<longrightarrow>
        map (\<lambda>x. x c) (rows (heap s' ! r')) =
        map (\<lambda>x. x c)
          (take 10 (map (\<lambda>i. map (scored_row lib (heap s1 ! w)) (rows (heap s1 ! w)) ! i)
                        (sort_indexer lib keys))))"
proof -
  let ?n = "length (heap s)"
  from select_candidates_summary [OF fa live, of lib c]
  obtain w s1 where sel: "select_candidates lib c s = Inr (w, s1)"
    and w1: "w < length (heap s1)" and nw: "?n \<le> w"
    and t1: "take ?n (heap s1) = heap s" and f1: "food_df s1 = food_df s" by blast
  define df where "df = heap s1 ! w"
  define scored where "scored = df\<lparr>columns :=
                 (let cs = columns df @ filter (\<lambda>c. c \<notin> set (columns df)) [''Protein'', ''Fat'', ''Calories'']
                  in if ''score'' \<in> set cs then cs else cs @ [''score'']),
               rows := map (scored_row lib df) (rows df)\<rparr>"
  define s2 where "s2 = store w scored s1"
  have sc: "score_candidates lib w s1 = Inr s2"
    unfolding s2_def scored_def df_def by (rule score_candidates_heap [OF w1])
  have h2: "heap s2 ! w = scored" using w1 by (simp add: s2_def store_def)
  have l2: "length (heap s2) = length (heap s1)" by (simp add: s2_def store_def)
  have t2: "take ?n (heap s2) = heap s" using nw t1 by (simp add: s2_def store_def)
  have f2: "food_df s2 = food_df s" using f1 by (simp add: s2_def store_def)
  define k where "k = (\<lambda>r :: row. cell_number (r ''score''))"
  define keys where "keys = map k (rows scored)"
  have col: "''score'' \<in> set (columns (heap s2 ! w))"
    unfolding h2 by (simp add: scored_def Let_def)
  have nums: "\<forall>r \<in> set (rows (heap s2 ! w)). r ''score'' = Num (k r)"
    unfolding h2 by (auto simp: scored_def k_def scored_row_score)
  define top where "top = scored\<lparr>rows := take 10 (map (\<lambda>i. rows scored ! i) (sort_indexer lib keys))\<rparr>"
  define sorted_df where "sorted_df = scored\<lparr>rows := map (\<lambda>i. rows scored ! i) (sort_indexer lib keys)\<rparr>"
  define s3 where "s3 = s2\<lparr>heap := heap s2 @ [sorted_df, top]\<rparr>"
  define r where "r = length (heap s2) + 1"
  have tt: "top_ten lib w s2 = Inr (r, s3)"
    using top_ten_heap [OF col nums, of lib]
    unfolding h2 r_def s3_def top_def sorted_df_def keys_def by simp
  have r3: "r < length (heap s3)" by (simp add: r_def s3_def)
  have h3: "heap s3 ! r = top" by (simp add: r_def s3_def nth_append)
  have l3: "length (heap s3) = length (heap s2) + 2" by (simp add: s3_def)
  have t3: "take ?n (heap s3) = heap s" using t2 w1 nw l2 by (simp add: s3_def)
  have f3: "food_df s3 = food_df s" using f2 by (simp add: s3_def)
  from project_fields_heap [OF r3, of lib] obtain d2 sel' out where
    pf: "project_fields lib r s3 =
           Inr (length (heap s3) + 1, s3\<lparr>heap := (heap s3)[r := d2] @ [sel', out]\<rparr>)"
    and co: "columns out = required_fields"
    and lo: "length (rows out) = length (rows (heap s3 ! r))"
    and keepc: "\<forall>c. c \<in> set (columns (heap s3 ! r)) \<and>
          list_all clean_number (map (\<lambda>x. x c) (rows (heap s3 ! r)))
          \<longrightarrow> map (\<lambda>x. x c) (rows out) = map (\<lambda>x. x c) (rows (heap s3 ! r))" by blast
  define s4 where "s4 = s3\<lparr>heap := (heap s3)[r := d2] @ [sel', out]\<rparr>"
  define r' where "r' = length (heap s3) + 1"
  have pf': "project_fields lib r s3 = Inr (r', s4)" using pf by (simp add: s4_def r'_def)
  have run: "get_cluster_recommendations lib c s =
       Inr ((profile_name_of c, recommendation_type_of c, r'), s4)"
    unfolding get_cluster_recommendations_def Let_def
    by (simp only: sel bind_err_Inr prod.case sc tt pf')
  have r4: "r' < length (heap s4)" by (simp add: r'_def s4_def)
  have h4: "heap s4 ! r' = out" by (simp add: r'_def s4_def nth_append)
  have t4: "take ?n (heap s4) = heap s"
  proof -
    have le: "?n \<le> r" using nw w1 l2 by (simp add: r_def)
    then have "take ?n ((heap s3)[r := d2]) = take ?n (heap s3)" by simp
    moreover have "?n \<le> length ((heap s3)[r := d2])" using le r3 by simp
    ultimately have "take ?n ((heap s3)[r := d2] @ [sel', out]) = take ?n (heap s3)" by simp
    with t3 show ?thesis by (simp add: s4_def)
  qed
  have f4: "food_df s4 = food_df s" using f3 by (simp add: s4_def)
  have lk: "length keys = length (rows (heap s1 ! w))" by (simp add: keys_def scored_def df_def)
  have lr: "length (rows (heap s4 ! r')) = min 10 (length (sort_indexer lib keys))"
    unfolding h4 lo h3 by (simp add: top_def)
  have cr: "columns (heap s4 ! r') = required_fields" unfolding h4 by (rule co)
  define toprows where "toprows =
     take 10 (map (\<lambda>i. map (scored_row lib (heap s1 ! w)) (rows (heap s1 ! w)) ! i)
                  (sort_indexer lib keys))"
  have tr: "rows top = toprows" by (simp add: top_def scored_def df_def toprows_def)
  have kk: "keys = map (\<lambda>x. cell_number (scored_row lib (heap s1 ! w) x ''score'')) (rows (heap s1 ! w))"
    by (simp add: keys_def k_def scored_def df_def comp_def)
  have tc: "set [''Protein'', ''Fat'', ''Calories''] \<subseteq> set (columns top)"
    by (auto simp: top_def scored_def Let_def)
  have pc: "\<forall>c \<in> set [''Protein'', ''Fat'', ''Calories''].
        list_all clean_number (map (\<lambda>x. x c) toprows) \<longrightarrow>
        map (\<lambda>x. x c) (rows (heap s4 ! r')) = map (\<lambda>x. x c) toprows"
  proof (intro ballI impI)
    fix c
    assume c: "c \<in> set [''Protein'', ''Fat'', ''Calories'']"
      and cl: "list_all clean_number (map (\<lambda>x. x c) toprows)"
    from c tc have "c \<in> set (columns (heap s3 ! r))" unfolding h3 by blast
    moreover from cl have "list_all clean_number (map (\<lambda>x. x c) (rows (heap s3 ! r)))"
      unfolding h3 tr .
    ultimately have "map (\<lambda>x. x c) (rows out) = map (\<lambda>x. x c) (rows (heap s3 ! r))"
      using keepc by blast
    then show "map (\<lambda>x. x c) (rows (heap s4 ! r')) = map (\<lambda>x. x c) toprows"
      unfolding h4 h3 tr .
  qed
  from sel run f4 t4 r4 cr lk lr kk pc [unfolded toprows_def]
  show ?thesis by (intro exI [of _ w] exI [of _ s1] exI [of _ keys] exI [of _ r'] exI [of _ s4] conjI)
qed

subsection \<open>Claims on the engine\<close>

text \<open>
  Claim C9. A call of the engine on a loaded catalog returns, leaves the global
  \<^verbatim>\<open>food_df\<close> pointing where it did, and leaves every object that existed before the
  call as it was, the catalog among them: the call writes only to frames it has
  allocated itself.
\<close>

theorem catalog_unchanged:
  assumes "food_df s = Some fa" and "fa < length (heap s)"
  shows "\<exists>res s'. get_cluster_recommendations lib user_cluster s = Inr (res, s') \<and>
           food_df s' = food_df s \<and>
           take (length (heap s)) (heap s') = heap s \<and>
           deref s' fa = deref s fa"
proof -
  from engine_run [OF assms, of lib user_cluster]
  obtain r' s' where run: "get_cluster_recommendations lib user_cluster s =
       Inr ((profile_name_of user_cluster, recommendation_type_of user_cluster, r'), s')"
    and f: "food_df s' = food_df s" and t: "take (length (heap s)) (heap s') = heap s"
    by blast
  have "take (length (heap s)) (heap s') ! fa = heap s' ! fa"
    using assms(2) by simp
  with t have "deref s' fa = deref s fa" by (simp add: deref_def)
  with run f t show ?thesis by blast
qed

text \<open>
  Claim C5. With a sort that meets its contract, a call on a loaded catalog returns a
  frame whose number of rows is the smaller of 10 and the number of candidate rows,
  and that has a row whenever the catalog has one.
\<close>

theorem result_length:
  assumes ok: "sort_values_ok (sort_indexer lib)"
    and fa: "food_df s = Some fa" and live: "fa < length (heap s)"
  shows "\<exists>w s1 p t r s'.
           select_candidates lib user_cluster s = Inr (w, s1) \<and>
           get_cluster_recommendations lib user_cluster s = Inr ((p, t, r), s') \<and>
           length (rows (deref s' r)) = min 10 (length (rows (deref s1 w))) \<and>
           (rows (deref s fa) \<noteq> [] \<longrightarrow> rows (deref s' r) \<noteq> [])"
proof -
  from engine_run [OF fa live, of lib user_cluster]
  obtain w s1 keys r' s' where sel: "select_candidates lib user_cluster s = Inr (w, s1)"
    and run: "get_cluster_recommendations lib user_cluster s =
       Inr ((profile_name_of user_cluster, recommendation_type_of user_cluster, r'), s')"
    and lk: "length keys = length (rows (heap s1 ! w))"
    and lr: "length (rows (heap s' ! r')) = min 10 (length (sort_indexer lib keys))"
    by blast
  from select_candidates_summary [OF fa live, of lib user_cluster] sel
  have rws: "rows (heap s1 ! w) =
             (if ''Cluster'' \<in> set (columns (heap s ! fa)) \<and>
                 cluster_partition lib user_cluster (heap s ! fa) \<noteq> []
              then cluster_partition lib user_cluster (heap s ! fa) else rows (heap s ! fa))"
    by auto
  have len: "length (rows (deref s' r')) = min 10 (length (rows (deref s1 w)))"
    using lr lk indexer_length [OF ok, of keys] by (simp add: deref_def)
  have ne: "rows (deref s fa) \<noteq> [] \<longrightarrow> rows (deref s' r') \<noteq> []"
  proof
    assume "rows (deref s fa) \<noteq> []"
    with rws have "rows (deref s1 w) \<noteq> []" by (auto simp: deref_def)
    with len have "0 < length (rows (deref s' r'))" by simp
    then show "rows (deref s' r') \<noteq> []" by blast
  qed
  from sel run len ne show ?thesis by blast
qed

text \<open>
  Claim C4. With a Cluster column, the candidates are the rows of the cluster
  partition (the rows whose Cluster cell, coerced to a number, equals the requested id)
  when that partition has a row, and all rows of the catalog when it has none; without
  the column they are all rows of the catalog. So the candidate set is empty only when
  the catalog is.
\<close>

theorem cluster_filter_with_fallback:
  assumes fa: "food_df s = Some fa" and live: "fa < length (heap s)"
  shows "\<exists>w s1. select_candidates lib cluster_id s = Inr (w, s1) \<and>
           (''Cluster'' \<in> set (columns (deref s fa)) \<and> cluster_partition lib cluster_id (deref s fa) \<noteq> []
              \<longrightarrow> rows (deref s1 w) = cluster_partition lib cluster_id (deref s fa)) \<and>
           (''Cluster'' \<in> set (columns (deref s fa)) \<and> cluster_partition lib cluster_id (deref s fa) = []
              \<longrightarrow> rows (deref s1 w) = rows (deref s fa)) \<and>
           (''Cluster'' \<notin> set (columns (deref s fa)) \<longrightarrow> rows (deref s1 w) = rows (deref s fa)) \<and>
           (rows (deref s fa) \<noteq> [] \<longrightarrow> rows (deref s1 w) \<noteq> [])"
proof -
  from select_candidates_summary [OF fa live, of lib cluster_id]
  obtain w s1 where sel: "select_candidates lib cluster_id s = Inr (w, s1)"
    and rws: "rows (heap s1 ! w) =
             (if ''Cluster'' \<in> set (columns (heap s ! fa)) \<and>
                 cluster_partition lib cluster_id (heap s ! fa) \<noteq> []
              then cluster_partition lib cluster_id (heap s ! fa) else rows (heap s ! fa))"
    by blast
  from rws have "(''Cluster'' \<in> set (columns (deref s fa)) \<and> cluster_partition lib cluster_id (deref s fa) \<noteq> []
              \<longrightarrow> rows (deref s1 w) = cluster_partition lib cluster_id (deref s fa)) \<and>
           (''Cluster'' \<in> set (columns (deref s fa)) \<and> cluster_partition lib cluster_id (deref s fa) = []
              \<longrightarrow> rows (deref s1 w) = rows (deref s fa)) \<and>
           (''Cluster'' \<notin> set (columns (deref s fa)) \<longrightarrow> rows (deref s1 w) = rows (deref s fa)) \<and>
           (rows (deref s fa) \<noteq> [] \<longrightarrow> rows (deref s1 w) \<noteq> [])"
    by (auto simp: deref_def)
  with sel show ?thesis by blast
qed

subsection \<open>Runs on the example catalogs\<close>

lemma loaded_ok: "food_df (loaded df) = Some 0 \<and> 0 < length (heap (loaded df)) \<and> deref (loaded df) 0 = df"
  by (simp add: loaded_def deref_def)

lemma example_lib_ok: "sort_values_ok (sort_indexer example_lib)"
  by (simp add: example_lib_def rank_indexer_ok)

lemma partition_9: "cluster_partition example_lib 9 clustered_catalog = []"
  by (simp add: cluster_partition_def clustered_catalog_def mk_row_def example_lib_def
        parse_decimal_def split_first_def nat_of_digits_def digit_val_def is_digit_def
        round64_integers)

lemma partition_2: "map (\<lambda>r. r ''Food'') (cluster_partition example_lib 2 clustered_catalog) = [Str ''Oats'']"
  by (simp add: cluster_partition_def clustered_catalog_def mk_row_def example_lib_def
        parse_decimal_def split_first_def nat_of_digits_def digit_val_def is_digit_def
        round64_integers)

theorem catalog_unchanged_witness:
  "food_df (loaded clustered_catalog) = Some 0 \<and> 0 < length (heap (loaded clustered_catalog)) \<and>
   (\<exists>res s'. get_cluster_recommendations example_lib 2 (loaded clustered_catalog) = Inr (res, s') \<and>
        food_df s' = Some 0 \<and> deref s' 0 = clustered_catalog)"
proof -
  have h1: "food_df (loaded clustered_catalog) = Some 0"
    and h2: "0 < length (heap (loaded clustered_catalog))"
    and d: "deref (loaded clustered_catalog) 0 = clustered_catalog"
    using loaded_ok [of clustered_catalog] by simp_all
  from catalog_unchanged [OF h1 h2, of example_lib 2] h1 h2 d show ?thesis by auto
qed

theorem cluster_filter_with_fallback_witness:
  "food_df (loaded clustered_catalog) = Some 0 \<and> 0 < length (heap (loaded clustered_catalog)) \<and>
   ''Cluster'' \<in> set (columns clustered_catalog) \<and>
   cluster_partition example_lib 9 clustered_catalog = [] \<and>
   (\<exists>w s1. select_candidates example_lib 9 (loaded clustered_catalog) = Inr (w, s1) \<and>
        map (\<lambda>r. r ''Food'') (rows (deref s1 w)) = [Str ''Oats'', Str ''Butter'', Str ''Lentils'']) \<and>
   (\<exists>w s1. select_candidates example_lib 2 (loaded clustered_catalog) = Inr (w, s1) \<and>
        map (\<lambda>r. r ''Food'') (rows (deref s1 w)) = [Str ''Oats''])"
proof -
  have h1: "food_df (loaded clustered_catalog) = Some 0"
    and h2: "0 < length (heap (loaded clustered_catalog))"
    and d: "deref (loaded clustered_catalog) 0 = clustered_catalog"
    using loaded_ok [of clustered_catalog] by simp_all
  have c: "''Cluster'' \<in> set (columns clustered_catalog)" by (simp add: clustered_catalog_def)
  have foods: "map (\<lambda>r. r ''Food'') (rows clustered_catalog) = [Str ''Oats'', Str ''Butter'', Str ''Lentils'']"
    by (simp add: clustered_catalog_def mk_row_def)
  from cluster_filter_with_fallback [OF h1 h2, of example_lib 9]
  obtain w s1 where sel: "select_candidates example_lib 9 (loaded clustered_catalog) = Inr (w, s1)"
    and fb: "''Cluster'' \<in> set (columns (deref (loaded clustered_catalog) 0)) \<and>
             cluster_partition example_lib 9 (deref (loaded clustered_catalog) 0) = []
              \<longrightarrow> rows (deref s1 w) = rows (deref (loaded clustered_catalog) 0)"
    by blast
  from fb c partition_9 have "rows (deref s1 w) = rows clustered_catalog" by (simp add: d)
  with sel foods
  have nine: "\<exists>w s1. select_candidates example_lib 9 (loaded clustered_catalog) = Inr (w, s1) \<and>
        map (\<lambda>r. r ''Food'') (rows (deref s1 w)) = [Str ''Oats'', Str ''Butter'', Str ''Lentils'']"
    by (intro exI [of _ w] exI [of _ s1]) simp
  have ne: "cluster_partition example_lib 2 clustered_catalog \<noteq> []"
    using partition_2 by auto
  from cluster_filter_with_fallback [OF h1 h2, of example_lib 2]
  obtain w' s1' where sel': "select_candidates example_lib 2 (loaded clustered_catalog) = Inr (w', s1')"
    and part: "''Cluster'' \<in> set (columns (deref (loaded clustered_catalog) 0)) \<and>
             cluster_partition example_lib 2 (deref (loaded clustered_catalog) 0) \<noteq> []
              \<longrightarrow> rows (deref s1' w') = cluster_partition example_lib 2 (deref (loaded clustered_catalog) 0)"
    by blast
  from part c ne have "rows (deref s1' w') = cluster_partition example_lib 2 clustered_catalog"
    by (simp add: d)
  with sel' partition_2
  have two: "\<exists>w s1. select_candidates example_lib 2 (loaded clustered_catalog) = Inr (w, s1) \<and>
        map (\<lambda>r. r ''Food'') (rows (deref s1 w)) = [Str ''Oats'']"
    by (intro exI [of _ w'] exI [of _ s1']) simp
  from h1 h2 c partition_9 nine two show ?thesis by (intro conjI)
qed

theorem result_length_witness:
  "sort_values_ok (sort_indexer example_lib) \<and>
   food_df (loaded (scenario_catalog\<lparr>rows := replicate 12 (mk_row [(''Food'', Str ''Rice'')])\<rparr>)) = Some 0 \<and>
   0 < length (heap (loaded (scenario_catalog\<lparr>rows := replicate 12 (mk_row [(''Food'', Str ''Rice'')])\<rparr>))) \<and>
   (\<exists>p t r s'.
      get_cluster_recommendations example_lib 5
        (loaded (scenario_catalog\<lparr>rows := replicate 12 (mk_row [(''Food'', Str ''Rice'')])\<rparr>)) =
        Inr ((p, t, r), s') \<and>
      length (rows (deref s' r)) = 10)"
proof -
  let ?cat = "scenario_catalog\<lparr>rows := replicate 12 (mk_row [(''Food'', Str ''Rice'')])\<rparr>"
  have h1: "food_df (loaded ?cat) = Some 0"
    and h2: "0 < length (heap (loaded ?cat))"
    and d: "deref (loaded ?cat) 0 = ?cat"
    using loaded_ok [of ?cat] by simp_all
  have nc: "''Cluster'' \<notin> set (columns ?cat)" by (simp add: scenario_catalog_def)
  from result_length [OF example_lib_ok h1 h2, of 5]
  obtain w s1 p t r s' where sel: "select_candidates example_lib 5 (loaded ?cat) = Inr (w, s1)"
    and run: "get_cluster_recommendations example_lib 5 (loaded ?cat) = Inr ((p, t, r), s')"
    and len: "length (rows (deref s' r)) = min 10 (length (rows (deref s1 w)))"
    by blast
  from select_candidates_summary [OF h1 h2, of example_lib 5] sel nc
  have "rows (heap s1 ! w) = rows ?cat" by (auto simp: loaded_def)
  then have "length (rows (deref s1 w)) = 12" by (simp add: deref_def)
  with len have "length (rows (deref s' r)) = 10" by simp
  with run example_lib_ok h1 h2 show ?thesis by blast
qed

lemma mset_pair: "mset ys = mset [a, b] \<Longrightarrow> ys = [a, b] \<or> ys = [b, a]"
proof -
  assume m: "mset ys = mset [a, b]"
  then have "size (mset ys) = size (mset [a, b])" by simp
  then have "length ys = 2" by simp
  then obtain x y where ys: "ys = [x, y]"
    by (auto simp: length_Suc_conv numeral_2_eq_2)
  with m have "{#x, y#} = {#a, b#}" by simp
  then have "(x = a \<and> y = b) \<or> (x = b \<and> y = a)"
    by (auto simp: add_eq_conv_ex)
  with ys show ?thesis by auto
qed

lemma indexer_descending_pair:
  assumes ok: "sort_values_ok ix" and gt: "b < a"
  shows "ix [Fin a, Fin b] = [0, 1]"
proof -
  from ok have m: "mset (ix [Fin a, Fin b]) = mset [0..<length [Fin a, Fin b]]"
    and s: "sorted_wrt (\<lambda>i j. before_desc ([Fin a, Fin b] ! i) ([Fin a, Fin b] ! j)) (ix [Fin a, Fin b])"
    unfolding sort_values_ok_def by blast+
  have "[0..<length [Fin a, Fin b]] = [0, 1]" by (simp add: upt_rec)
  with m have "ix [Fin a, Fin b] = [0, 1] \<or> ix [Fin a, Fin b] = [1, 0]"
    using mset_pair [of "ix [Fin a, Fin b]" 0 1] by simp
  moreover have "ix [Fin a, Fin b] \<noteq> [1, 0]"
  proof
    assume "ix [Fin a, Fin b] = [1, 0]"
    with s have "before_desc (Fin b) (Fin a)" by simp
    with gt show False by (simp add: before_desc_def)
  qed
  ultimately show ?thesis by blast
qed

text \<open>The scores of Broccoli and Bacon are the floats written 4.32 and -44.4.\<close>

lemma scenario_floats:
  "round64 (432 / 100) = Fin (607985949695017 / 140737488355328)"
  "round64 (- 444 / 10) = Fin (- 6248744482976563 / 140737488355328)"
  "spec_score (round64 (28 / 10)) (round64 (4 / 10)) (Fin 34) =
     Fin (607985949695017 / 140737488355328)"
  "spec_score (Fin 12) (Fin 40) (Fin 420) = Fin (- 6248744482976563 / 140737488355328)"
  by code_simp+

lemma scenario_scores:
  "map (\<lambda>r. scored_row lib scenario_catalog r ''score'') (rows scenario_catalog) =
     [Num (Fin (607985949695017 / 140737488355328)),
      Num (Fin (- 6248744482976563 / 140737488355328))]"
  by code_simp

lemma scenario_select:
  "select_candidates lib 2 (loaded scenario_catalog) =
               Inr (1, \<lparr>heap = [scenario_catalog, scenario_catalog], food_df = Some 0\<rparr>)"
  by (simp add: select_candidates_def loaded_def alloc_def deref_def scenario_catalog_def)

lemma scenario_score:
  "score_candidates lib 1 \<lparr>heap = [scenario_catalog, scenario_catalog], food_df = Some 0\<rparr> =
     Inr \<lparr>heap = [scenario_catalog,
                  scenario_catalog\<lparr>columns := columns scenario_catalog @ [''score''],
                     rows := map (scored_row lib scenario_catalog) (rows scenario_catalog)\<rparr>],
          food_df = Some 0\<rparr>"
  using score_candidates_heap [of 1 "\<lparr>heap = [scenario_catalog, scenario_catalog], food_df = Some 0\<rparr>" lib]
  by (simp add: Let_def store_def) (simp add: scenario_catalog_def)

lemma scenario_top:
  assumes ok: "sort_values_ok (sort_indexer lib)"
  shows "top_ten lib 1 \<lparr>heap = [scenario_catalog,
                  scenario_catalog\<lparr>columns := columns scenario_catalog @ [''score''],
                     rows := map (scored_row lib scenario_catalog) (rows scenario_catalog)\<rparr>],
          food_df = Some 0\<rparr> =
     Inr (3, \<lparr>heap = [scenario_catalog,
                  scenario_catalog\<lparr>columns := columns scenario_catalog @ [''score''],
                     rows := map (scored_row lib scenario_catalog) (rows scenario_catalog)\<rparr>,
                  scenario_catalog\<lparr>columns := columns scenario_catalog @ [''score''],
                     rows := map (scored_row lib scenario_catalog) (rows scenario_catalog)\<rparr>,
                  scenario_catalog\<lparr>columns := columns scenario_catalog @ [''score''],
                     rows := map (scored_row lib scenario_catalog) (rows scenario_catalog)\<rparr>],
          food_df = Some 0\<rparr>)"
proof -
  let ?scored = "scenario_catalog\<lparr>columns := columns scenario_catalog @ [''score''],
                     rows := map (scored_row lib scenario_catalog) (rows scenario_catalog)\<rparr>"
  let ?s = "\<lparr>heap = [scenario_catalog, ?scored], food_df = Some 0\<rparr>"
  let ?k = "\<lambda>r :: row. case r ''score'' of Num v \<Rightarrow> v | Str t \<Rightarrow> NaN"
  have col: "''score'' \<in> set (columns (heap ?s ! 1))" by simp
  have nums: "\<forall>r \<in> set (rows (heap ?s ! 1)). r ''score'' = Num (?k r)"
    by (auto simp: scored_row_score)
  let ?R = "map (scored_row lib scenario_catalog) (rows scenario_catalog)"
  have keys: "map ?k ?R = [Fin (607985949695017 / 140737488355328),
                           Fin (- 6248744482976563 / 140737488355328)]"
    using scenario_scores [of lib] by (simp add: scenario_catalog_def)
  have ix: "sort_indexer lib [Fin (607985949695017 / 140737488355328),
                              Fin (- 6248744482976563 / 140737488355328)] = [0, 1]"
    by (rule indexer_descending_pair [OF ok]) simp
  have two: "length (rows scenario_catalog) = 2" by (simp add: scenario_catalog_def)
  have rws: "map (\<lambda>i. ?R ! i) [0, 1] = ?R"
    using two by (simp add: list_eq_iff_nth_eq less_Suc_eq numeral_2_eq_2)
  have tk: "take 10 ?R = ?R" using two by simp
  have "top_ten lib 1 ?s =
     Inr (3, \<lparr>heap = [scenario_catalog, ?scored,
                  ?scored\<lparr>rows := map (\<lambda>i. ?R ! i) (sort_indexer lib (map ?k ?R))\<rparr>,
                  ?scored\<lparr>rows := take 10 (map (\<lambda>i. ?R ! i) (sort_indexer lib (map ?k ?R)))\<rparr>],
          food_df = Some 0\<rparr>)"
    using top_ten_heap [OF col nums, of lib] by (simp del: map_map)
  then show ?thesis
    by (simp only: keys ix rws tk) (simp del: map_map)
qed

lemma scenario_run:
  assumes ok: "sort_values_ok (sort_indexer lib)"
  shows "\<exists>r s'. get_cluster_recommendations lib 2 (loaded scenario_catalog) =
            Inr ((''Active Diabetic with High Blood Pressure'', ''Low-Fat Foods'', r), s') \<and>
          map (\<lambda>x. x ''Food'') (rows (deref s' r)) = [Str ''Broccoli'', Str ''Bacon'']"
proof -
  have pn: "profile_name_of 2 = ''Active Diabetic with High Blood Pressure''"
    by (simp add: profile_name_of_def dict_get_def CLUSTER_PROFILE_def)
  have rt: "recommendation_type_of 2 = ''Low-Fat Foods''"
    by (simp add: recommendation_type_of_def dict_get_def CLUSTER_RECOMMENDATION_TYPE_def)
  define scored where "scored = scenario_catalog\<lparr>columns := columns scenario_catalog @ [''score''],
                     rows := map (scored_row lib scenario_catalog) (rows scenario_catalog)\<rparr>"
  define s3 where "s3 = \<lparr>heap = [scenario_catalog, scored, scored, scored], food_df = Some 0\<rparr>"
  have top: "top_ten lib 1 \<lparr>heap = [scenario_catalog, scored], food_df = Some 0\<rparr> = Inr (3, s3)"
    unfolding s3_def scored_def by (rule scenario_top [OF ok])
  have sc: "score_candidates lib 1 \<lparr>heap = [scenario_catalog, scenario_catalog], food_df = Some 0\<rparr> =
              Inr \<lparr>heap = [scenario_catalog, scored], food_df = Some 0\<rparr>"
    unfolding scored_def by (rule scenario_score)
  have live: "3 < length (heap s3)" by (simp add: s3_def)
  have h3: "heap s3 ! 3 = scored" by (simp add: s3_def)
  have l3: "length (heap s3) + 1 = 5" by (simp add: s3_def)
  from project_fields_heap [OF live, of lib] obtain d2 sel out where
    pf: "project_fields lib 3 s3 = Inr (length (heap s3) + 1, s3\<lparr>heap := (heap s3)[3 := d2] @ [sel, out]\<rparr>)"
    and keep: "\<forall>c. c \<in> set (columns (heap s3 ! 3)) \<and> c \<notin> set [''Protein'', ''Fat'', ''Carbs'', ''Calories'']
          \<longrightarrow> map (\<lambda>x. x c) (rows out) = map (\<lambda>x. x c) (rows (heap s3 ! 3))"
    by blast
  define s4 where "s4 = s3\<lparr>heap := (heap s3)[3 := d2] @ [sel, out]\<rparr>"
  have pf': "project_fields lib 3 s3 = Inr (5, s4)" using pf l3 by (simp add: s4_def)
  have c1: "''Food'' \<in> set (columns scored)" by (simp add: scored_def scenario_catalog_def)
  have c2: "''Food'' \<notin> set [''Protein'', ''Fat'', ''Carbs'', ''Calories'']" by simp
  from keep [rule_format, of "''Food''"] c1 c2
  have "map (\<lambda>x. x ''Food'') (rows out) = map (\<lambda>x. x ''Food'') (rows scored)"
    unfolding h3 by simp
  also have "\<dots> = [Str ''Broccoli'', Str ''Bacon'']"
    by (simp add: scored_def scored_row_def scenario_catalog_def mk_row_def)
  finally have f: "map (\<lambda>x. x ''Food'') (rows out) = [Str ''Broccoli'', Str ''Bacon'']" .
  have d5: "deref s4 5 = out" by (simp add: s4_def s3_def deref_def nth_append)
  have run: "get_cluster_recommendations lib 2 (loaded scenario_catalog) =
          Inr ((''Active Diabetic with High Blood Pressure'', ''Low-Fat Foods'', 5), s4)"
    unfolding get_cluster_recommendations_def Let_def
    by (simp only: scenario_select bind_err_Inr prod.case sc top pf' pn rt)
  have "map (\<lambda>x. x ''Food'') (rows (deref s4 5)) = [Str ''Broccoli'', Str ''Bacon'']"
    unfolding d5 by (rule f)
  with run show ?thesis by (intro exI conjI)
qed

lemma scenario_scored:
  "\<exists>w s1 s2. select_candidates lib 2 (loaded scenario_catalog) = Inr (w, s1) \<and>
      score_candidates lib w s1 = Inr s2 \<and>
      map (\<lambda>x. x ''score'') (rows (deref s2 w)) =
        [Num (round64 (432 / 100)), Num (round64 (- 444 / 10))]"
proof -
  define scored where "scored = scenario_catalog\<lparr>columns := columns scenario_catalog @ [''score''],
                     rows := map (scored_row lib scenario_catalog) (rows scenario_catalog)\<rparr>"
  define s1 where "s1 = \<lparr>heap = [scenario_catalog, scenario_catalog], food_df = Some 0\<rparr>"
  define s2 where "s2 = \<lparr>heap = [scenario_catalog, scored], food_df = Some 0\<rparr>"
  have sel: "select_candidates lib 2 (loaded scenario_catalog) = Inr (1, s1)"
    unfolding s1_def by (rule scenario_select)
  have sc: "score_candidates lib 1 s1 = Inr s2"
    unfolding s1_def s2_def scored_def by (rule scenario_score)
  have "map (\<lambda>x. x ''score'') (rows (deref s2 1)) =
          map (\<lambda>r. scored_row lib scenario_catalog r ''score'') (rows scenario_catalog)"
    by (simp add: s2_def scored_def deref_def)
  also have "\<dots> = [Num (round64 (432 / 100)), Num (round64 (- 444 / 10))]"
    unfolding scenario_floats(1,2) by (rule scenario_scores)
  finally have "map (\<lambda>x. x ''score'') (rows (deref s2 1)) =
        [Num (round64 (432 / 100)), Num (round64 (- 444 / 10))]" .
  with sel sc show ?thesis by (intro exI conjI)
qed

text \<open>
  Claim C1. With a sort that meets its contract: on every candidate frame the scoring
  step succeeds, keeps the rows, and gives each row the score
  \<open>Protein * 2 - Fat * 1.5 - Calories / 50\<close> of its three nutrients, computed in floats
  with every operation rounding its result; a nutrient is 0 when its column is missing,
  its cell is a missing value or its text cannot be read as a number. On the two-item
  catalog Broccoli, Bacon with cluster 2 and no Cluster column the two candidates get
  the floats written 4.32 and -44.4 as scores, and the engine returns the items in the
  order Broccoli, Bacon.
\<close>

theorem score_formula_and_scenario_order:
  assumes ok: "sort_values_ok (sort_indexer lib)" and live: "w < length (heap s)"
  shows "(\<exists>s'. score_candidates lib w s = Inr s' \<and>
            length (rows (deref s' w)) = length (rows (deref s w)) \<and>
            (\<forall>i < length (rows (deref s w)).
               (rows (deref s' w) ! i) ''score'' =
                 Num (fsub (fsub (fmul (value_or_zero lib (deref s w) (rows (deref s w) ! i) ''Protein'')
                                       (Fin 2))
                                 (fmul (value_or_zero lib (deref s w) (rows (deref s w) ! i) ''Fat'')
                                       (Fin (3 / 2))))
                           (fdiv (value_or_zero lib (deref s w) (rows (deref s w) ! i) ''Calories'')
                                 (Fin 50))))) \<and>
         (\<exists>c s1 s2. select_candidates lib 2 (loaded scenario_catalog) = Inr (c, s1) \<and>
            score_candidates lib c s1 = Inr s2 \<and>
            map (\<lambda>x. x ''score'') (rows (deref s2 c)) =
              [Num (round64 (432 / 100)), Num (round64 (- 444 / 10))]) \<and>
         (\<exists>r s'. get_cluster_recommendations lib 2 (loaded scenario_catalog) =
              Inr ((''Active Diabetic with High Blood Pressure'', ''Low-Fat Foods'', r), s') \<and>
            map (\<lambda>x. x ''Food'') (rows (deref s' r)) = [Str ''Broccoli'', Str ''Bacon''])"
proof (intro conjI)
  let ?df = "heap s ! w"
  let ?scored = "?df\<lparr>columns :=
                 (let cs = columns ?df @ filter (\<lambda>c. c \<notin> set (columns ?df)) [''Protein'', ''Fat'', ''Calories'']
                  in if ''score'' \<in> set cs then cs else cs @ [''score'']),
               rows := map (scored_row lib ?df) (rows ?df)\<rparr>"
  have sc: "score_candidates lib w s = Inr (store w ?scored s)"
    by (rule score_candidates_heap [OF live])
  have d: "deref (store w ?scored s) w = ?scored" by (rule deref_store [OF live])
  have "length (rows (deref (store w ?scored s) w)) = length (rows (deref s w))"
    unfolding d by (simp add: deref_def)
  moreover have "\<forall>i < length (rows (deref s w)).
               (rows (deref (store w ?scored s) w) ! i) ''score'' =
                 Num (spec_score (value_or_zero lib (deref s w) (rows (deref s w) ! i) ''Protein'')
                                 (value_or_zero lib (deref s w) (rows (deref s w) ! i) ''Fat'')
                                 (value_or_zero lib (deref s w) (rows (deref s w) ! i) ''Calories''))"
    unfolding d by (simp add: deref_def scored_row_score)
  ultimately have "\<exists>s'. score_candidates lib w s = Inr s' \<and>
            length (rows (deref s' w)) = length (rows (deref s w)) \<and>
            (\<forall>i < length (rows (deref s w)).
               (rows (deref s' w) ! i) ''score'' =
                 Num (spec_score (value_or_zero lib (deref s w) (rows (deref s w) ! i) ''Protein'')
                                 (value_or_zero lib (deref s w) (rows (deref s w) ! i) ''Fat'')
                                 (value_or_zero lib (deref s w) (rows (deref s w) ! i) ''Calories'')))"
    using sc by blast
  then show "\<exists>s'. score_candidates lib w s = Inr s' \<and>
            length (rows (deref s' w)) = length (rows (deref s w)) \<and>
            (\<forall>i < length (rows (deref s w)).
               (rows (deref s' w) ! i) ''score'' =
                 Num (fsub (fsub (fmul (value_or_zero lib (deref s w) (rows (deref s w) ! i) ''Protein'')
                                       (Fin 2))
                                 (fmul (value_or_zero lib (deref s w) (rows (deref s w) ! i) ''Fat'')
                                       (Fin (3 / 2))))
                           (fdiv (value_or_zero lib (deref s w) (rows (deref s w) ! i) ''Calories'')
                                 (Fin 50))))"
    unfolding spec_score_def .
next
  show "\<exists>c s1 s2. select_candidates lib 2 (loaded scenario_catalog) = Inr (c, s1) \<and>
            score_candidates lib c s1 = Inr s2 \<and>
            map (\<lambda>x. x ''score'') (rows (deref s2 c)) =
              [Num (round64 (432 / 100)), Num (round64 (- 444 / 10))]"
    by (rule scenario_scored)
next
  show "\<exists>r s'. get_cluster_recommendations lib 2 (loaded scenario_catalog) =
              Inr ((''Active Diabetic with High Blood Pressure'', ''Low-Fat Foods'', r), s') \<and>
            map (\<lambda>x. x ''Food'') (rows (deref s' r)) = [Str ''Broccoli'', Str ''Bacon'']"
    by (rule scenario_run [OF ok])
qed

text \<open>
  On the second example catalog the scores are the floats written 7.72, -133.84 and
  15.68.
\<close>

lemma clustered_floats:
  "fsub (fsub (fmul (Fin 13) (Fin 2)) (fmul (Fin 7) (Fin (3 / 2)))) (fdiv (Fin 389) (Fin 50)) =
     round64 (772 / 100)"
  "fsub (fsub (fmul (Fin 1) (Fin 2)) (fmul (Fin 81) (Fin (3 / 2)))) (fdiv (Fin 717) (Fin 50)) =
     round64 (- 13384 / 100)"
  "fsub (fsub (fmul (Fin 9) (Fin 2)) (fmul (Fin 0) (Fin (3 / 2)))) (fdiv (Fin 116) (Fin 50)) =
     round64 (1568 / 100)"
  by code_simp+

theorem score_formula_and_scenario_order_witness:
  "sort_values_ok (sort_indexer example_lib) \<and> 0 < length (heap (loaded clustered_catalog)) \<and>
   (\<exists>s'. score_candidates example_lib 0 (loaded clustered_catalog) = Inr s' \<and>
      (rows (deref s' 0) ! 0) ''score'' = Num (round64 (772 / 100)) \<and>
      (rows (deref s' 0) ! 1) ''score'' = Num (round64 (- 13384 / 100)) \<and>
      (rows (deref s' 0) ! 2) ''score'' = Num (round64 (1568 / 100))) \<and>
   (\<exists>c s1 s2. select_candidates example_lib 2 (loaded scenario_catalog) = Inr (c, s1) \<and>
      score_candidates example_lib c s1 = Inr s2 \<and>
      map (\<lambda>x. x ''score'') (rows (deref s2 c)) =
        [Num (round64 (432 / 100)), Num (round64 (- 444 / 10))]) \<and>
   (\<exists>r s'. get_cluster_recommendations example_lib 2 (loaded scenario_catalog) =
              Inr ((''Active Diabetic with High Blood Pressure'', ''Low-Fat Foods'', r), s') \<and>
            map (\<lambda>x. x ''Food'') (rows (deref s' r)) = [Str ''Broccoli'', Str ''Bacon''])"
proof -
  have h2: "0 < length (heap (loaded clustered_catalog))"
    and d: "deref (loaded clustered_catalog) 0 = clustered_catalog"
    using loaded_ok [of clustered_catalog] by simp_all
  note inst = score_formula_and_scenario_order [OF example_lib_ok h2]
  from inst obtain s' where sc: "score_candidates example_lib 0 (loaded clustered_catalog) = Inr s'"
    and all: "\<forall>i < length (rows clustered_catalog).
               (rows (deref s' 0) ! i) ''score'' =
                 Num (fsub (fsub (fmul (value_or_zero example_lib clustered_catalog (rows clustered_catalog ! i) ''Protein'')
                                       (Fin 2))
                                 (fmul (value_or_zero example_lib clustered_catalog (rows clustered_catalog ! i) ''Fat'')
                                       (Fin (3 / 2))))
                           (fdiv (value_or_zero example_lib clustered_catalog (rows clustered_catalog ! i) ''Calories'')
                                 (Fin 50)))"
    unfolding d by blast
  have len: "length (rows clustered_catalog) = 3" by (simp add: clustered_catalog_def)
  have v: "value_or_zero example_lib clustered_catalog (rows clustered_catalog ! 0) ''Protein'' = Fin 13"
     "value_or_zero example_lib clustered_catalog (rows clustered_catalog ! 0) ''Fat'' = Fin 7"
     "value_or_zero example_lib clustered_catalog (rows clustered_catalog ! 0) ''Calories'' = Fin 389"
     "value_or_zero example_lib clustered_catalog (rows clustered_catalog ! 1) ''Protein'' = Fin 1"
     "value_or_zero example_lib clustered_catalog (rows clustered_catalog ! 1) ''Fat'' = Fin 81"
     "value_or_zero example_lib clustered_catalog (rows clustered_catalog ! 1) ''Calories'' = Fin 717"
     "value_or_zero example_lib clustered_catalog (rows clustered_catalog ! 2) ''Protein'' = Fin 9"
     "value_or_zero example_lib clustered_catalog (rows clustered_catalog ! 2) ''Fat'' = Fin 0"
     "value_or_zero example_lib clustered_catalog (rows clustered_catalog ! 2) ''Calories'' = Fin 116"
    by (simp_all add: value_or_zero_def clustered_catalog_def mk_row_def example_lib_def
          parse_decimal_def split_first_def nat_of_digits_def digit_val_def is_digit_def
          round64_integers)
  have i0: "(rows (deref s' 0) ! 0) ''score'' = Num (round64 (772 / 100))"
    using all [rule_format, of 0] len by (simp only: v clustered_floats)
  have i1: "(rows (deref s' 0) ! 1) ''score'' = Num (round64 (- 13384 / 100))"
    using all [rule_format, of 1] len by (simp only: v clustered_floats)
  have i2: "(rows (deref s' 0) ! 2) ''score'' = Num (round64 (1568 / 100))"
    using all [rule_format, of 2] len by (simp only: v clustered_floats)
  from sc i0 i1 i2
  have first: "\<exists>s'. score_candidates example_lib 0 (loaded clustered_catalog) = Inr s' \<and>
      (rows (deref s' 0) ! 0) ''score'' = Num (round64 (772 / 100)) \<and>
      (rows (deref s' 0) ! 1) ''score'' = Num (round64 (- 13384 / 100)) \<and>
      (rows (deref s' 0) ! 2) ''score'' = Num (round64 (1568 / 100))"
    by (intro exI conjI)
  from inst have second: "\<exists>c s1 s2. select_candidates example_lib 2 (loaded scenario_catalog) = Inr (c, s1) \<and>
      score_candidates example_lib c s1 = Inr s2 \<and>
      map (\<lambda>x. x ''score'') (rows (deref s2 c)) =
        [Num (round64 (432 / 100)), Num (round64 (- 444 / 10))]"
    by (elim conjE)
  from inst have third: "\<exists>r s'. get_cluster_recommendations example_lib 2 (loaded scenario_catalog) =
              Inr ((''Active Diabetic with High Blood Pressure'', ''Low-Fat Foods'', r), s') \<and>
            map (\<lambda>x. x ''Food'') (rows (deref s' r)) = [Str ''Broccoli'', Str ''Bacon'']"
    by (elim conjE)
  from example_lib_ok h2 first second third show ?thesis by (intro conjI)
qed

section \<open>Cleaning the catalog\<close>

declare str_replace.simps [simp del]

lemma str_replace_char:
  "str_replace [a] new s = concat (map (\<lambda>c. if c = a then new else [c]) s)"
proof (induction s)
  case Nil
  show ?case by (subst str_replace.simps) simp
next
  case (Cons c cs)
  show ?case by (subst str_replace.simps) (simp add: Cons.IH)
qed

lemma replace_t: "str_replace ''t'' ''0'' s = map (\<lambda>c. if c = CHR ''t'' then CHR ''0'' else c) s"
  by (induction s) (simp_all add: str_replace_char)

lemma replace_comma: "str_replace '','' [] s = filter (\<lambda>c. c \<noteq> CHR '','') s"
  by (induction s) (simp_all add: str_replace_char)

lemma is_object_column_other:
  "c \<noteq> col \<Longrightarrow>
   is_object_column (df\<lparr>rows := map (\<lambda>r. r(col := g r)) (rows df)\<rparr>) c = is_object_column df c"
  by (simp add: is_object_column_def list_ex_iff)

lemma clean_step:
  assumes "col \<in> set (columns df)" and "is_object_column df col"
  shows "clean_numeric_cols lib (col # cols) df =
         clean_numeric_cols lib cols
           (df\<lparr>rows := map (\<lambda>r. r(col := coerce lib (Str (clean_text lib (r col))))) (rows df)\<rparr>)"
proof -
  let ?g1 = "\<lambda>r :: row. Str (str_replace ''t'' ''0'' (astype_str lib (r col)))"
  let ?df1 = "df\<lparr>rows := map (\<lambda>r. r(col := ?g1 r)) (rows df)\<rparr>"
  have g0: "df_getitem df col = Inr (map (\<lambda>r. r col) (rows df))"
    using assms(1) by (simp add: df_getitem_def)
  have s1: "df_setitem df col (map (\<lambda>x. Str (str_replace ''t'' ''0'' (astype_str lib x)))
              (map (\<lambda>r. r col) (rows df))) = ?df1"
    using assms(1) df_setitem_map [of df col ?g1] by (simp add: comp_def)
  let ?g2 = "\<lambda>r :: row. Str (str_replace '','' [] (astype_str lib (r col)))"
  let ?df2 = "?df1\<lparr>rows := map (\<lambda>r. r(col := ?g2 r)) (rows ?df1)\<rparr>"
  have g1: "df_getitem ?df1 col = Inr (map (\<lambda>r. r col) (rows ?df1))"
    using assms(1) by (simp add: df_getitem_def)
  have s2: "df_setitem ?df1 col (map (\<lambda>x. Str (str_replace '','' [] (astype_str lib x)))
              (map (\<lambda>r. r col) (rows ?df1))) = ?df2"
    using assms(1) df_setitem_map [of ?df1 col ?g2] by (simp add: comp_def)
  let ?df3 = "?df2\<lparr>rows := map (\<lambda>r. r(col := coerce lib (r col))) (rows ?df2)\<rparr>"
  have g2: "df_getitem ?df2 col = Inr (map (\<lambda>r. r col) (rows ?df2))"
    using assms(1) by (simp add: df_getitem_def)
  have s3: "df_setitem ?df2 col (to_numeric lib (map (\<lambda>r. r col) (rows ?df2))) = ?df3"
    using assms(1) df_setitem_map [of ?df2 col "\<lambda>r. coerce lib (r col)"]
    by (simp add: comp_def to_numeric_def)
  have fin: "?df3 = df\<lparr>rows := map (\<lambda>r. r(col := coerce lib (Str (clean_text lib (r col))))) (rows df)\<rparr>"
    by (simp add: comp_def clean_text_def replace_t replace_comma del: coerce.simps)
  have "clean_numeric_cols lib (col # cols) df = clean_numeric_cols lib cols ?df3"
    using assms by (simp only: clean_numeric_cols.simps simp_thms if_True g0 bind_err_Inr Let_def s1 g1 s2 g2 s3)
  then show ?thesis by (simp only: fin)
qed

lemma clean_numeric_cols_result:
  "distinct cols \<Longrightarrow>
   clean_numeric_cols lib cols df =
     Inr (df\<lparr>rows := map (\<lambda>r c. if c \<in> set cols \<and> c \<in> set (columns df) \<and> is_object_column df c
                                 then coerce lib (Str (clean_text lib (r c))) else r c) (rows df)\<rparr>)"
proof (induction cols arbitrary: df)
  case Nil
  then show ?case by simp
next
  case (Cons col cols)
  then have d: "distinct cols" and notin: "col \<notin> set cols" by simp_all
  show ?case
  proof (cases "col \<in> set (columns df) \<and> is_object_column df col")
    case True
    let ?df1 = "df\<lparr>rows := map (\<lambda>r. r(col := coerce lib (Str (clean_text lib (r col))))) (rows df)\<rparr>"
    have obj: "c \<in> set cols \<Longrightarrow> is_object_column ?df1 c = is_object_column df c" for c
      using notin by (intro is_object_column_other) auto
    have "clean_numeric_cols lib (col # cols) df = clean_numeric_cols lib cols ?df1"
      using True by (simp only: clean_step)
    also have "\<dots> = Inr (?df1\<lparr>rows := map (\<lambda>r c. if c \<in> set cols \<and> c \<in> set (columns ?df1) \<and> is_object_column ?df1 c
                                 then coerce lib (Str (clean_text lib (r c))) else r c) (rows ?df1)\<rparr>)"
      by (rule Cons.IH [OF d])
    also have "\<dots> = Inr (df\<lparr>rows := map (\<lambda>r c. if c \<in> set (col # cols) \<and> c \<in> set (columns df) \<and> is_object_column df c
                                 then coerce lib (Str (clean_text lib (r c))) else r c) (rows df)\<rparr>)"
    proof -
      have "map (\<lambda>r c. if c \<in> set cols \<and> c \<in> set (columns ?df1) \<and> is_object_column ?df1 c
                                 then coerce lib (Str (clean_text lib (r c))) else r c) (rows ?df1) =
            map (\<lambda>r c. if c \<in> set (col # cols) \<and> c \<in> set (columns df) \<and> is_object_column df c
                                 then coerce lib (Str (clean_text lib (r c))) else r c) (rows df)"
        using True notin obj by (auto simp: fun_eq_iff simp del: coerce.simps)
      then show ?thesis by simp
    qed
    finally show ?thesis .
  next
    case False
    then have "clean_numeric_cols lib (col # cols) df = clean_numeric_cols lib cols df"
      by auto
    also have "\<dots> = Inr (df\<lparr>rows := map (\<lambda>r c. if c \<in> set cols \<and> c \<in> set (columns df) \<and> is_object_column df c
                                 then coerce lib (Str (clean_text lib (r c))) else r c) (rows df)\<rparr>)"
      by (rule Cons.IH [OF d])
    also have "\<dots> = Inr (df\<lparr>rows := map (\<lambda>r c. if c \<in> set (col # cols) \<and> c \<in> set (columns df) \<and> is_object_column df c
                                 then coerce lib (Str (clean_text lib (r c))) else r c) (rows df)\<rparr>)"
      using False by (auto simp: fun_eq_iff simp del: coerce.simps)
    finally show ?thesis .
  qed
qed

lemma fillna0_coerce_text: "fillna0_cell (coerce lib (Str t)) = Num (parse_or_zero lib t)"
  by (simp add: parse_or_zero_def split: option.splits)

lemma clean_catalog_result:
  assumes "set numeric_cols \<subseteq> set (columns df)"
  shows "clean_catalog lib df =
     Inr (df\<lparr>rows := map (\<lambda>r c. if c \<in> set numeric_cols
                                 then (if is_object_column df c
                                       then Num (parse_or_zero lib (clean_text lib (r c)))
                                       else fillna0_cell (r c))
                                 else r c) (rows df)\<rparr>)"
proof -
  have dist: "distinct numeric_cols" by (simp add: numeric_cols_def)
  let ?d = "df\<lparr>rows := map (\<lambda>r c. if c \<in> set numeric_cols \<and> c \<in> set (columns df) \<and> is_object_column df c
                                 then coerce lib (Str (clean_text lib (r c))) else r c) (rows df)\<rparr>"
  have sub: "set numeric_cols \<subseteq> set (columns ?d)" using assms by simp
  have "df_fillna_cols ?d numeric_cols =
          Inr (?d\<lparr>rows := map (\<lambda>r c. if c \<in> set numeric_cols then fillna0_cell (r c) else r c) (rows ?d)\<rparr>)"
    unfolding df_fillna_cols_def using sub by (simp only: if_True)
  also have "\<dots> = Inr (df\<lparr>rows := map (\<lambda>r c. if c \<in> set numeric_cols
                                 then (if is_object_column df c
                                       then Num (parse_or_zero lib (clean_text lib (r c)))
                                       else fillna0_cell (r c))
                                 else r c) (rows df)\<rparr>)"
  proof -
    have "map (\<lambda>r c. if c \<in> set numeric_cols then fillna0_cell (r c) else r c) (rows ?d) =
          map (\<lambda>r c. if c \<in> set numeric_cols
                                 then (if is_object_column df c
                                       then Num (parse_or_zero lib (clean_text lib (r c)))
                                       else fillna0_cell (r c))
                                 else r c) (rows df)"
      using assms by (auto simp: fun_eq_iff fillna0_coerce_text simp del: coerce.simps)
    then show ?thesis by simp
  qed
  finally show ?thesis
    unfolding clean_catalog_def
    by (simp only: clean_numeric_cols_result [OF dist] bind_err_Inr)
qed

text \<open>
  Claim C8. When every numeric column is present, cleaning succeeds and keeps every
  row. In a numeric column that holds a text, each cell becomes a number: the cell is
  taken as a text, every "t" in it is replaced by "0" and every comma is removed, the
  result is read as a number, and a text that still cannot be read, or reads as NaN,
  gives 0. The two replacements of the code are these character-wise operations.
\<close>

theorem text_column_normalized:
  assumes present: "set numeric_cols \<subseteq> set (columns df)"
    and col: "col \<in> set numeric_cols" and has_text: "is_object_column df col"
  shows "(\<exists>d. clean_catalog lib df = Inr d \<and> columns d = columns df \<and>
             length (rows d) = length (rows df) \<and>
             (\<forall>i < length (rows df).
                (rows d ! i) col =
                  Num (case parse_numeric lib
                              (str_replace '','' [] (str_replace ''t'' ''0'' (astype_str lib ((rows df ! i) col)))) of
                         None \<Rightarrow> Fin 0
                       | Some x \<Rightarrow> if x = NaN then Fin 0 else x))) \<and>
         (\<forall>t. str_replace ''t'' ''0'' t = map (\<lambda>c. if c = CHR ''t'' then CHR ''0'' else c) t) \<and>
         (\<forall>t. str_replace '','' [] t = filter (\<lambda>c. c \<noteq> CHR '','') t)"
proof (intro conjI)
  let ?d = "df\<lparr>rows := map (\<lambda>r c. if c \<in> set numeric_cols
                                 then (if is_object_column df c
                                       then Num (parse_or_zero lib (clean_text lib (r c)))
                                       else fillna0_cell (r c))
                                 else r c) (rows df)\<rparr>"
  have r: "clean_catalog lib df = Inr ?d" by (rule clean_catalog_result [OF present])
  have "\<forall>i < length (rows df).
                (rows ?d ! i) col =
                  Num (case parse_numeric lib
                              (str_replace '','' [] (str_replace ''t'' ''0'' (astype_str lib ((rows df ! i) col)))) of
                         None \<Rightarrow> Fin 0
                       | Some x \<Rightarrow> if x = NaN then Fin 0 else x)"
    using col has_text by (simp add: parse_or_zero_def clean_text_def replace_t replace_comma)
  moreover have "columns ?d = columns df" and "length (rows ?d) = length (rows df)" by simp_all
  ultimately show "\<exists>d. clean_catalog lib df = Inr d \<and> columns d = columns df \<and>
             length (rows d) = length (rows df) \<and>
             (\<forall>i < length (rows df).
                (rows d ! i) col =
                  Num (case parse_numeric lib
                              (str_replace '','' [] (str_replace ''t'' ''0'' (astype_str lib ((rows df ! i) col)))) of
                         None \<Rightarrow> Fin 0
                       | Some x \<Rightarrow> if x = NaN then Fin 0 else x))"
    using r by blast
next
  show "\<forall>t. str_replace ''t'' ''0'' t = map (\<lambda>c. if c = CHR ''t'' then CHR ''0'' else c) t"
    by (simp add: replace_t)
next
  show "\<forall>t. str_replace '','' [] t = filter (\<lambda>c. c \<noteq> CHR '','') t"
    by (simp add: replace_comma)
qed

theorem text_column_normalized_witness:
  "set numeric_cols \<subseteq> set (columns raw_catalog) \<and>
   ''Calories'' \<in> set numeric_cols \<and> is_object_column raw_catalog ''Calories'' \<and>
   ''Protein'' \<in> set numeric_cols \<and> is_object_column raw_catalog ''Protein'' \<and>
   ''Carbs'' \<in> set numeric_cols \<and> is_object_column raw_catalog ''Carbs'' \<and>
   (\<exists>d. clean_catalog example_lib raw_catalog = Inr d \<and> length (rows d) = 2 \<and>
        (rows d ! 0) ''Calories'' = Num (Fin 660) \<and>
        (rows d ! 1) ''Calories'' = Num (Fin 1000) \<and>
        (rows d ! 1) ''Protein'' = Num (Fin 0) \<and>
        (rows d ! 1) ''Carbs'' = Num (Fin 0))"
proof -
  have present: "set numeric_cols \<subseteq> set (columns raw_catalog)"
    by (simp add: numeric_cols_def raw_catalog_def)
  have cal: "''Calories'' \<in> set numeric_cols" and pro: "''Protein'' \<in> set numeric_cols"
    and car: "''Carbs'' \<in> set numeric_cols"
    by (simp_all add: numeric_cols_def)
  have ocal: "is_object_column raw_catalog ''Calories''"
    and opro: "is_object_column raw_catalog ''Protein''"
    and ocar: "is_object_column raw_catalog ''Carbs''"
    by (simp_all add: is_object_column_def raw_catalog_def mk_row_def)
  have len: "length (rows raw_catalog) = 2" by (simp add: raw_catalog_def)
  note ev = raw_catalog_def mk_row_def example_lib_def replace_t replace_comma
    parse_decimal_def split_first_def nat_of_digits_def digit_val_def is_digit_def
    round64_integers
  from text_column_normalized [OF present cal ocal, of example_lib]
  obtain d where r: "clean_catalog example_lib raw_catalog = Inr d"
    and l: "length (rows d) = length (rows raw_catalog)"
    and c: "\<forall>i < length (rows raw_catalog).
                (rows d ! i) ''Calories'' =
                  Num (case parse_numeric example_lib
                              (str_replace '','' [] (str_replace ''t'' ''0''
                                 (astype_str example_lib ((rows raw_catalog ! i) ''Calories'')))) of
                         None \<Rightarrow> Fin 0
                       | Some x \<Rightarrow> if x = NaN then Fin 0 else x)"
    by blast
  from text_column_normalized [OF present pro opro, of example_lib] r
  have p: "\<forall>i < length (rows raw_catalog).
                (rows d ! i) ''Protein'' =
                  Num (case parse_numeric example_lib
                              (str_replace '','' [] (str_replace ''t'' ''0''
                                 (astype_str example_lib ((rows raw_catalog ! i) ''Protein'')))) of
                         None \<Rightarrow> Fin 0
                       | Some x \<Rightarrow> if x = NaN then Fin 0 else x)"
    by auto
  from text_column_normalized [OF present car ocar, of example_lib] r
  have b: "\<forall>i < length (rows raw_catalog).
                (rows d ! i) ''Carbs'' =
                  Num (case parse_numeric example_lib
                              (str_replace '','' [] (str_replace ''t'' ''0''
                                 (astype_str example_lib ((rows raw_catalog ! i) ''Carbs'')))) of
                         None \<Rightarrow> Fin 0
                       | Some x \<Rightarrow> if x = NaN then Fin 0 else x)"
    by auto
  have c0: "(rows d ! 0) ''Calories'' = Num (Fin 660)"
    using c [rule_format, of 0] len by (simp add: ev)
  have c1: "(rows d ! 1) ''Calories'' = Num (Fin 1000)"
    using c [rule_format, of 1] len by (simp add: ev)
  have p1: "(rows d ! 1) ''Protein'' = Num (Fin 0)"
    using p [rule_format, of 1] len by (simp add: ev)
  have b1: "(rows d ! 1) ''Carbs'' = Num (Fin 0)"
    using b [rule_format, of 1] len by (simp add: ev)
  from r l len c0 c1 p1 b1
  have "\<exists>d. clean_catalog example_lib raw_catalog = Inr d \<and> length (rows d) = 2 \<and>
        (rows d ! 0) ''Calories'' = Num (Fin 660) \<and>
        (rows d ! 1) ''Calories'' = Num (Fin 1000) \<and>
        (rows d ! 1) ''Protein'' = Num (Fin 0) \<and>
        (rows d ! 1) ''Carbs'' = Num (Fin 0)"
    by (intro exI [of _ d]) simp
  with present cal ocal pro opro car ocar show ?thesis by (intro conjI)
qed

subsection \<open>The order of the result\<close>

lemma value_or_zero_number: "value_or_zero lib df r c \<noteq> NaN"
  by (cases "r c") (auto simp: value_or_zero_def split: option.splits)

lemma scored_row_clean:
  "c \<in> set [''Protein'', ''Fat'', ''Calories''] \<Longrightarrow> clean_number (scored_row lib df r c)"
  by (auto simp: scored_row_def value_or_zero_number)

lemma scored_row_item_score:
  "item_score (scored_row lib df r) = cell_number (scored_row lib df r ''score'')"
  by (simp add: item_score_def scored_row_def)

lemma item_score_columns:
  assumes p: "map (\<lambda>x. x ''Protein'') xs = map (\<lambda>x. x ''Protein'') ys"
    and f: "map (\<lambda>x. x ''Fat'') xs = map (\<lambda>x. x ''Fat'') ys"
    and c: "map (\<lambda>x. x ''Calories'') xs = map (\<lambda>x. x ''Calories'') ys"
  shows "map item_score xs = map item_score ys"
proof -
  from p have "length (map (\<lambda>x. x ''Protein'') xs) = length (map (\<lambda>x. x ''Protein'') ys)"
    by simp
  then have len: "length xs = length ys" by simp
  from len p f c show ?thesis
    by (induction xs ys rule: list_induct2) (simp_all add: item_score_def)
qed

lemma indexer_in_range:
  assumes ok: "sort_values_ok ix" and i: "i \<in> set (ix keys)"
  shows "i < length keys"
proof -
  from ok have "mset (ix keys) = mset [0..<length keys]" unfolding sort_values_ok_def by blast
  then have "set_mset (mset (ix keys)) = set_mset (mset [0..<length keys])" by simp
  then have "set (ix keys) = {0..<length keys}" by simp
  with i show ?thesis by simp
qed

lemma indexer_sorted_keys:
  assumes ok: "sort_values_ok ix"
  shows "sorted_wrt before_desc (map (\<lambda>i. keys ! i) (ix keys))"
proof -
  from ok have "sorted_wrt (\<lambda>i j. before_desc (keys ! i) (keys ! j)) (ix keys)"
    unfolding sort_values_ok_def by blast
  then show ?thesis by (simp add: sorted_wrt_map)
qed

text \<open>
  Beyond the claims: with a sort that meets its contract, the scores of the returned
  items, recomputed from their Protein, Fat and Calories cells, do not increase down
  the result. Nothing is said about the order of items with equal scores.
\<close>

theorem result_sorted_descending:
  assumes ok: "sort_values_ok (sort_indexer lib)"
    and fa: "food_df s = Some fa" and live: "fa < length (heap s)"
  shows "\<exists>p t r s'. get_cluster_recommendations lib user_cluster s = Inr ((p, t, r), s') \<and>
           sorted_wrt (\<lambda>a b. before_desc (item_score a) (item_score b)) (rows (deref s' r))"
proof -
  from engine_run [OF fa live, of lib user_cluster]
  obtain w s1 keys r' s' where all:
    "select_candidates lib user_cluster s = Inr (w, s1) \<and>
     get_cluster_recommendations lib user_cluster s =
       Inr ((profile_name_of user_cluster, recommendation_type_of user_cluster, r'), s') \<and>
     food_df s' = food_df s \<and> take (length (heap s)) (heap s') = heap s \<and>
     r' < length (heap s') \<and> columns (heap s' ! r') = required_fields \<and>
     length keys = length (rows (heap s1 ! w)) \<and>
     length (rows (heap s' ! r')) = min 10 (length (sort_indexer lib keys)) \<and>
     keys = map (\<lambda>x. cell_number (scored_row lib (heap s1 ! w) x ''score'')) (rows (heap s1 ! w)) \<and>
     (\<forall>c \<in> set [''Protein'', ''Fat'', ''Calories''].
        list_all clean_number
          (map (\<lambda>x. x c)
            (take 10 (map (\<lambda>i. map (scored_row lib (heap s1 ! w)) (rows (heap s1 ! w)) ! i)
                          (sort_indexer lib keys)))) \<longrightarrow>
        map (\<lambda>x. x c) (rows (heap s' ! r')) =
        map (\<lambda>x. x c)
          (take 10 (map (\<lambda>i. map (scored_row lib (heap s1 ! w)) (rows (heap s1 ! w)) ! i)
                        (sort_indexer lib keys))))"
    by (elim exE) (rule that)
  from all have
    run: "get_cluster_recommendations lib user_cluster s =
       Inr ((profile_name_of user_cluster, recommendation_type_of user_cluster, r'), s')"
    by (elim conjE)
  from all have
    kk: "keys = map (\<lambda>x. cell_number (scored_row lib (heap s1 ! w) x ''score'')) (rows (heap s1 ! w))"
    by (elim conjE)
  from all have
    pc: "\<forall>c \<in> set [''Protein'', ''Fat'', ''Calories''].
        list_all clean_number
          (map (\<lambda>x. x c)
            (take 10 (map (\<lambda>i. map (scored_row lib (heap s1 ! w)) (rows (heap s1 ! w)) ! i)
                          (sort_indexer lib keys)))) \<longrightarrow>
        map (\<lambda>x. x c) (rows (heap s' ! r')) =
        map (\<lambda>x. x c)
          (take 10 (map (\<lambda>i. map (scored_row lib (heap s1 ! w)) (rows (heap s1 ! w)) ! i)
                        (sort_indexer lib keys)))"
    by (elim conjE)
  define df where "df = heap s1 ! w"
  define ix where "ix = sort_indexer lib keys"
  define toprows where "toprows = take 10 (map (\<lambda>i. map (scored_row lib df) (rows df) ! i) ix)"
  have lk: "length keys = length (rows df)" by (simp add: kk df_def)
  have rng: "i \<in> set ix \<Longrightarrow> i < length (rows df)" for i
    using indexer_in_range [OF ok, of i keys] lk by (simp add: ix_def)
  have pick: "i \<in> set ix \<Longrightarrow>
               map (scored_row lib df) (rows df) ! i = scored_row lib df (rows df ! i)" for i
    using rng by simp
  have topset: "x \<in> set toprows \<Longrightarrow> \<exists>r0. x = scored_row lib df r0" for x
  proof -
    assume "x \<in> set toprows"
    then have "x \<in> set (map (\<lambda>i. map (scored_row lib df) (rows df) ! i) ix)"
      unfolding toprows_def by (rule in_set_takeD)
    then obtain i where "i \<in> set ix" and "x = map (scored_row lib df) (rows df) ! i" by auto
    with pick show ?thesis by auto
  qed
  have clean: "c \<in> set [''Protein'', ''Fat'', ''Calories''] \<Longrightarrow>
               list_all clean_number (map (\<lambda>x. x c) toprows)" for c
  proof -
    assume c: "c \<in> set [''Protein'', ''Fat'', ''Calories'']"
    have "clean_number (x c)" if "x \<in> set toprows" for x
      using topset [OF that] scored_row_clean [OF c] by auto
    then show ?thesis by (simp add: list_all_iff)
  qed
  have cols: "c \<in> set [''Protein'', ''Fat'', ''Calories''] \<Longrightarrow>
              map (\<lambda>x. x c) (rows (heap s' ! r')) = map (\<lambda>x. x c) toprows" for c
  proof -
    assume c: "c \<in> set [''Protein'', ''Fat'', ''Calories'']"
    from clean [OF c] have cl: "list_all clean_number
          (map (\<lambda>x. x c)
            (take 10 (map (\<lambda>i. map (scored_row lib (heap s1 ! w)) (rows (heap s1 ! w)) ! i)
                          (sort_indexer lib keys))))"
      unfolding toprows_def df_def ix_def .
    show ?thesis
      unfolding toprows_def df_def ix_def by (rule pc [rule_format, OF c cl])
  qed
  have scores: "map item_score (rows (heap s' ! r')) = map item_score toprows"
    by (rule item_score_columns) (simp_all add: cols)
  have "map item_score toprows = take 10 (map (\<lambda>i. keys ! i) ix)"
  proof -
    have "item_score (map (scored_row lib df) (rows df) ! i) = keys ! i" if "i \<in> set ix" for i
      using that rng [OF that] by (simp add: scored_row_item_score kk df_def)
    then have "map (\<lambda>i. item_score (map (scored_row lib df) (rows df) ! i)) ix = map (\<lambda>i. keys ! i) ix"
      by (intro map_cong) auto
    then have "map item_score (map (\<lambda>i. map (scored_row lib df) (rows df) ! i) ix) =
               map (\<lambda>i. keys ! i) ix"
      by (simp only: map_map comp_def)
    then show ?thesis by (simp only: toprows_def take_map [symmetric])
  qed
  moreover have "sorted_wrt before_desc (take 10 (map (\<lambda>i. keys ! i) ix))"
    unfolding ix_def by (intro sorted_wrt_take indexer_sorted_keys [OF ok])
  ultimately have "sorted_wrt before_desc (map item_score (rows (heap s' ! r')))"
    using scores by simp
  then have "sorted_wrt (\<lambda>a b. before_desc (item_score a) (item_score b)) (rows (deref s' r'))"
    by (simp add: sorted_wrt_map deref_def)
  with run show ?thesis by (intro exI conjI)
qed

theorem result_sorted_descending_witness:
  "sort_values_ok (sort_indexer example_lib) \<and>
   food_df (loaded clustered_catalog) = Some 0 \<and> 0 < length (heap (loaded clustered_catalog)) \<and>
   (\<exists>p t r s'. get_cluster_recommendations example_lib 9 (loaded clustered_catalog) =
        Inr ((p, t, r), s') \<and>
      sorted_wrt (\<lambda>a b. before_desc (item_score a) (item_score b)) (rows (deref s' r)))"
proof -
  have h1: "food_df (loaded clustered_catalog) = Some 0"
    and h2: "0 < length (heap (loaded clustered_catalog))"
    using loaded_ok [of clustered_catalog] by simp_all
  from result_sorted_descending [OF example_lib_ok h1 h2, of 9] example_lib_ok h1 h2
  show ?thesis by (intro conjI)
qed

end
